theory Spec2Isabelle
  imports Main "HOL-Library.Char_ord" "HOL-Library.List_Lexorder" "HOL-Library.Multiset"
begin

section \<open>Data model\<close>

text \<open>
  The service keeps one table \<open>urls\<close>. A row has the eight fields of \<open>urlsTable\<close>
  (db/schema.ts) and of the \<open>UrlItem\<close> interface of the raw SQL server. Timestamps are
  instants on a discrete clock. A \<open>Record<string, string>\<close> is a finite mapping from labels
  to URLs. The field \<open>id\<close> is written \<open>id_key\<close>, since \<open>id\<close> is the identity function of HOL.
\<close>

type_synonym timestamp = nat

type_synonym subUrlMap = "string \<rightharpoonup> string"

record urlRow =
  id_key :: string
  name :: string
  mainUrl :: string
  subUrls :: subUrlMap
  isDeleted :: bool
  deletedAt :: "timestamp option"
  createdAt :: timestamp
  updatedAt :: timestamp

text \<open>
  The request body of POST and PUT, as the handlers destructure it:
  \<open>const { name, mainUrl, subUrls = {} } = body\<close>. A field that the body leaves out is
  \<open>undefined\<close> in the handler, here \<open>None\<close>.
\<close>

record body =
  body_name :: "string option"
  body_mainUrl :: "string option"
  body_subUrls :: "subUrlMap option"

text \<open>
  JSON values of the responses. An object keeps its keys in the order the handler writes
  them; \<open>JMap\<close> is an object whose values are all strings, seen as a mapping (jsonb does
  not keep the order of keys).
\<close>

datatype json =
    JNull
  | JBool bool
  | JStr string
  | JDate timestamp
  | JMap subUrlMap
  | JObj "(string \<times> json) list"
  | JArr "json list"

definition ok_data :: "json \<Rightarrow> json" where
  "ok_data d = JObj [(''success'', JBool True), (''data'', d)]"

definition ok_message :: "string \<Rightarrow> json" where
  "ok_message m = JObj [(''success'', JBool True), (''message'', JStr m)]"

definition failure :: "string \<Rightarrow> json" where
  "failure e = JObj [(''success'', JBool False), (''error'', JStr e)]"

definition json_of_deletedAt :: "timestamp option \<Rightarrow> json" where
  "json_of_deletedAt t = (case t of None \<Rightarrow> JNull | Some v \<Rightarrow> JDate v)"

text \<open>A row as drizzle's \<open>select()\<close> returns it: every column, in the order of the schema.\<close>

definition row_json :: "urlRow \<Rightarrow> json" where
  "row_json r = JObj
     [(''id'', JStr (id_key r)),
      (''name'', JStr (name r)),
      (''mainUrl'', JStr (mainUrl r)),
      (''subUrls'', JMap (subUrls r)),
      (''isDeleted'', JBool (isDeleted r)),
      (''deletedAt'', json_of_deletedAt (deletedAt r)),
      (''createdAt'', JDate (createdAt r)),
      (''updatedAt'', JDate (updatedAt r))]"

text \<open>
  A row as the raw SQL server selects and returns it:
  \<open>id, name, "mainUrl", "subUrls", "isDeleted", "createdAt", "updatedAt", "deletedAt"\<close>.
\<close>

definition sql_row_json :: "urlRow \<Rightarrow> json" where
  "sql_row_json r = JObj
     [(''id'', JStr (id_key r)),
      (''name'', JStr (name r)),
      (''mainUrl'', JStr (mainUrl r)),
      (''subUrls'', JMap (subUrls r)),
      (''isDeleted'', JBool (isDeleted r)),
      (''createdAt'', JDate (createdAt r)),
      (''updatedAt'', JDate (updatedAt r)),
      (''deletedAt'', json_of_deletedAt (deletedAt r))]"

section \<open>The store\<close>

text \<open>
  The database is the list of rows of \<open>urls\<close> together with whether the server can reach
  it while a request is handled. A statement throws when the database is unreachable; an
  INSERT also throws when the primary key \<open>id\<close> is already taken, and a statement whose
  text is not SQL throws when the database parses it. Every exception is a value of
  \<open>db_error\<close>, which the handlers' \<open>catch\<close> blocks turn into a failure envelope.
\<close>

datatype db_error = ConnectionError | UniqueViolation | SyntaxError

record db =
  urls :: "urlRow list"
  online :: bool

definition db_select :: "(urlRow \<Rightarrow> bool) \<Rightarrow> db \<Rightarrow> db_error + urlRow list" where
  "db_select p d = (if online d then Inr (filter p (urls d)) else Inl ConnectionError)"

text \<open>\<open>ORDER BY name\<close>: ascending in the lexicographic order of the character codes.\<close>

definition order_by_name :: "urlRow list \<Rightarrow> urlRow list" where
  "order_by_name rs = sort_key name rs"

definition limit :: "nat \<Rightarrow> 'a list \<Rightarrow> 'a list" where
  "limit n rs = take n rs"

definition db_insert :: "urlRow \<Rightarrow> db \<Rightarrow> db_error + db" where
  "db_insert r d =
     (if online d then
        (if id_key r \<in> set (map id_key (urls d)) then Inl UniqueViolation
         else Inr (d\<lparr>urls := urls d @ [r]\<rparr>))
      else Inl ConnectionError)"

text \<open>
  \<open>UPDATE urls SET ... WHERE p RETURNING ...\<close>: the rows matching \<open>p\<close> are rewritten by
  \<open>f\<close>; the statement returns the rewritten rows with the new database.
\<close>

definition db_update ::
  "(urlRow \<Rightarrow> bool) \<Rightarrow> (urlRow \<Rightarrow> urlRow) \<Rightarrow> db \<Rightarrow> db_error + (urlRow list \<times> db)" where
  "db_update p f d =
     (if online d then
        Inr (map f (filter p (urls d)),
             d\<lparr>urls := map (\<lambda>r. if p r then f r else r) (urls d)\<rparr>)
      else Inl ConnectionError)"

text \<open>
  A statement that PostgreSQL cannot parse: when the database is reached it answers with
  a syntax error, and no row is read or written.
\<close>

definition db_malformed :: "db \<Rightarrow> db_error + (urlRow list \<times> db)" where
  "db_malformed d = (if online d then Inl SyntaxError else Inl ConnectionError)"

section \<open>The drizzle servers\<close>

text \<open>
  The postgres-js server and the vercel-postgres drizzle server define the same five
  handlers, word for word; they are modelled once. A handler takes the request, the
  values that \<open>crypto.randomUUID()\<close> and the clock yield during the request, and the
  database; it returns the JSON envelope and the database after the request.
\<close>

text \<open>
  What \<open>db.insert(urlsTable).values(newUrl)\<close> stores for
  \<open>newUrl = {id, name, mainUrl, subUrls, isDeleted: false}\<close>: the columns that
  \<open>newUrl\<close> leaves out take their defaults, \<open>deleted_at\<close> NULL and \<open>created_at\<close>,
  \<open>updated_at\<close> the \<open>now()\<close> of the statement.
\<close>

definition newUrl_row :: "string \<Rightarrow> string \<Rightarrow> string \<Rightarrow> subUrlMap \<Rightarrow> timestamp \<Rightarrow> urlRow" where
  "newUrl_row i n m s now =
     \<lparr>id_key = i, name = n, mainUrl = m, subUrls = s, isDeleted = False,
      deletedAt = None, createdAt = now, updatedAt = now\<rparr>"

definition subUrls_or_default :: "subUrlMap option \<Rightarrow> subUrlMap" where
  "subUrls_or_default s = (case s of None \<Rightarrow> Map.empty | Some v \<Rightarrow> v)"

text \<open>\<open>!name || !mainUrl\<close> on strings that may be undefined: the accepted pair, if any.\<close>

definition required_fields :: "body \<Rightarrow> (string \<times> string) option" where
  "required_fields b =
     (case body_name b of
        None \<Rightarrow> None
      | Some n \<Rightarrow>
          (if n = [] then None
           else (case body_mainUrl b of
                   None \<Rightarrow> None
                 | Some m \<Rightarrow> (if m = [] then None else Some (n, m)))))"

definition get_urls :: "db \<Rightarrow> json" where
  "get_urls d =
     (case db_select (\<lambda>r. isDeleted r = False) d of
        Inl e \<Rightarrow> failure ''Failed to fetch URLs''
      | Inr rs \<Rightarrow> ok_data (JArr (map row_json (order_by_name rs))))"

definition get_url :: "string \<Rightarrow> db \<Rightarrow> json" where
  "get_url i d =
     (case db_select (\<lambda>r. id_key r = i \<and> isDeleted r = False) d of
        Inl e \<Rightarrow> failure ''Failed to fetch URL''
      | Inr rs \<Rightarrow>
          (case limit 1 rs of
             [] \<Rightarrow> failure ''URL not found''
           | r # _ \<Rightarrow> ok_data (row_json r)))"

definition post_url :: "body \<Rightarrow> string \<Rightarrow> timestamp \<Rightarrow> db \<Rightarrow> json \<times> db" where
  "post_url b newId now d =
     (case required_fields b of
        None \<Rightarrow> (failure ''Name and mainUrl are required'', d)
      | Some (n, m) \<Rightarrow>
          (let s = subUrls_or_default (body_subUrls b) in
           case db_insert (newUrl_row newId n m s now) d of
             Inl e \<Rightarrow> (failure ''Failed to create URL'', d)
           | Inr d' \<Rightarrow>
               (ok_data (JObj [(''id'', JStr newId), (''name'', JStr n),
                               (''mainUrl'', JStr m), (''subUrls'', JMap s),
                               (''isDeleted'', JBool False)]), d')))"

definition put_url :: "string \<Rightarrow> body \<Rightarrow> timestamp \<Rightarrow> db \<Rightarrow> json \<times> db" where
  "put_url i b now d =
     (case required_fields b of
        None \<Rightarrow> (failure ''Name and mainUrl are required'', d)
      | Some (n, m) \<Rightarrow>
          (let s = subUrls_or_default (body_subUrls b) in
           case db_select (\<lambda>r. id_key r = i \<and> isDeleted r = False) d of
             Inl e \<Rightarrow> (failure ''Failed to update URL'', d)
           | Inr existing \<Rightarrow>
               (if limit 1 existing = [] then (failure ''URL not found'', d)
                else
                  (case db_update (\<lambda>r. id_key r = i)
                          (\<lambda>r. r\<lparr>name := n, mainUrl := m, subUrls := s, updatedAt := now\<rparr>) d of
                     Inl e \<Rightarrow> (failure ''Failed to update URL'', d)
                   | Inr (rows, d') \<Rightarrow>
                       (ok_data (JObj [(''id'', JStr i), (''name'', JStr n),
                                       (''mainUrl'', JStr m), (''subUrls'', JMap s)]), d')))))"

definition delete_url :: "string \<Rightarrow> timestamp \<Rightarrow> db \<Rightarrow> json \<times> db" where
  "delete_url i now d =
     (case db_update (\<lambda>r. id_key r = i)
             (\<lambda>r. r\<lparr>isDeleted := True, deletedAt := Some now\<rparr>) d of
        Inl e \<Rightarrow> (failure ''Failed to delete URL'', d)
      | Inr (rows, d') \<Rightarrow> (ok_message ''URL deleted successfully'', d'))"

section \<open>The raw SQL server\<close>

text \<open>
  The server that sends SQL text through \<open>@vercel/postgres\<close>. Its two SELECT statements
  are well-formed. Its INSERT and its two UPDATE statements write the time of the database
  as \<open>()NOW\<close> (\<open>VALUES (..., false, ()NOW, ()NOW)\<close>, \<open>"updatedAt" = ()NOW\<close>,
  \<open>"deletedAt" = ()NOW\<close>), which is not an expression of PostgreSQL: the database rejects
  the statement, \<open>sql\<close> throws, and the handler leaves through its \<open>catch\<close> block. The
  code after the statement is modelled as it is written, \<open>result.rows[0]\<close> being
  \<open>undefined\<close> (the key \<open>data\<close> is then absent from the JSON) when no row comes back,
  though no request reaches it.
\<close>

definition sql_get_urls :: "db \<Rightarrow> json" where
  "sql_get_urls d =
     (case db_select (\<lambda>r. isDeleted r = False) d of
        Inl e \<Rightarrow> failure ''Failed to fetch URLs''
      | Inr rs \<Rightarrow> ok_data (JArr (map sql_row_json (order_by_name rs))))"

definition sql_get_url :: "string \<Rightarrow> db \<Rightarrow> json" where
  "sql_get_url i d =
     (case db_select (\<lambda>r. id_key r = i \<and> isDeleted r = False) d of
        Inl e \<Rightarrow> failure ''Failed to fetch URL''
      | Inr rs \<Rightarrow>
          (case limit 1 rs of
             [] \<Rightarrow> failure ''URL not found''
           | r # _ \<Rightarrow> ok_data (sql_row_json r)))"

definition rows0_envelope :: "urlRow list \<Rightarrow> json" where
  "rows0_envelope rows =
     (case rows of
        [] \<Rightarrow> JObj [(''success'', JBool True)]
      | r # _ \<Rightarrow> ok_data (sql_row_json r))"

definition sql_post_url :: "body \<Rightarrow> string \<Rightarrow> timestamp \<Rightarrow> db \<Rightarrow> json \<times> db" where
  "sql_post_url b newId now d =
     (case required_fields b of
        None \<Rightarrow> (failure ''Name and mainUrl are required'', d)
      | Some (n, m) \<Rightarrow>
          (case db_malformed d of
             Inl e \<Rightarrow> (failure ''Failed to create URL'', d)
           | Inr (rows, d') \<Rightarrow> (rows0_envelope rows, d')))"

definition sql_put_url :: "string \<Rightarrow> body \<Rightarrow> timestamp \<Rightarrow> db \<Rightarrow> json \<times> db" where
  "sql_put_url i b now d =
     (case required_fields b of
        None \<Rightarrow> (failure ''Name and mainUrl are required'', d)
      | Some (n, m) \<Rightarrow>
          (case db_select (\<lambda>r. id_key r = i \<and> isDeleted r = False) d of
             Inl e \<Rightarrow> (failure ''Failed to update URL'', d)
           | Inr checkResult \<Rightarrow>
               (if limit 1 checkResult = [] then (failure ''URL not found'', d)
                else
                  (case db_malformed d of
                     Inl e \<Rightarrow> (failure ''Failed to update URL'', d)
                   | Inr (rows, d') \<Rightarrow> (rows0_envelope rows, d')))))"

definition sql_delete_url :: "string \<Rightarrow> timestamp \<Rightarrow> db \<Rightarrow> json \<times> db" where
  "sql_delete_url i now d =
     (case db_malformed d of
        Inl e \<Rightarrow> (failure ''Failed to delete URL'', d)
      | Inr (rows, d') \<Rightarrow>
          (if rows = [] then (failure ''URL not found'', d')
           else (ok_message ''URL deleted successfully'', d')))"

section \<open>The body schema of the routes\<close>

text \<open>
  POST and PUT are registered with
  \<open>body: t.Object({name: t.String(), mainUrl: t.String(), subUrls: t.Optional(...)})\<close>,
  in every server. Elysia checks the body against this schema before it calls the
  handler: a body without \<open>name\<close> or without \<open>mainUrl\<close> is refused there, with Elysia's
  validation error, and the handler does not run. The empty string is a string and passes.
\<close>

definition body_schema :: "body \<Rightarrow> bool" where
  "body_schema b = (body_name b \<noteq> None \<and> body_mainUrl b \<noteq> None)"

datatype reply = Handled json | SchemaRejected

definition route_post_url :: "body \<Rightarrow> string \<Rightarrow> timestamp \<Rightarrow> db \<Rightarrow> reply \<times> db" where
  "route_post_url b newId now d =
     (if body_schema b
      then (Handled (fst (post_url b newId now d)), snd (post_url b newId now d))
      else (SchemaRejected, d))"

definition route_put_url :: "string \<Rightarrow> body \<Rightarrow> timestamp \<Rightarrow> db \<Rightarrow> reply \<times> db" where
  "route_put_url i b now d =
     (if body_schema b
      then (Handled (fst (put_url i b now d)), snd (put_url i b now d))
      else (SchemaRejected, d))"

definition sql_route_post_url :: "body \<Rightarrow> string \<Rightarrow> timestamp \<Rightarrow> db \<Rightarrow> reply \<times> db" where
  "sql_route_post_url b newId now d =
     (if body_schema b
      then (Handled (fst (sql_post_url b newId now d)), snd (sql_post_url b newId now d))
      else (SchemaRejected, d))"

definition sql_route_put_url :: "string \<Rightarrow> body \<Rightarrow> timestamp \<Rightarrow> db \<Rightarrow> reply \<times> db" where
  "sql_route_put_url i b now d =
     (if body_schema b
      then (Handled (fst (sql_put_url i b now d)), snd (sql_put_url i b now d))
      else (SchemaRejected, d))"

section \<open>The minimal server\<close>

text \<open>server.ts has no database: its list endpoint answers with a constant.\<close>

definition stub_get_urls :: json where
  "stub_get_urls =
     JObj [(''success'', JBool True), (''data'', JArr []),
           (''message'', JStr ''API endpoint working - no database yet'')]"

section \<open>Startup of the vercel-postgres drizzle server\<close>

text \<open>
  \<open>initializeDatabase\<close> runs the migrations, looks for one row and, when there is none,
  inserts the two entries of \<open>initialData\<close> in a loop, each under a fresh
  \<open>crypto.randomUUID()\<close>. The \<open>k\<close>-th insert of the loop takes the id \<open>uuid k\<close> and the
  database time \<open>clock k\<close>. An exception leaves the function at once (it is rethrown),
  with whatever was inserted before it, and without setting the flag.
\<close>

record urlItem =
  item_name :: string
  item_mainUrl :: string
  item_subUrls :: subUrlMap

definition initialData :: "urlItem list" where
  "initialData =
     [\<lparr>item_name = ''BBC News'', item_mainUrl = ''https://www.bbc.com'',
       item_subUrls = [''us'' \<mapsto> ''https://www.bbc.com/news/world/us_and_canada'',
                       ''uk'' \<mapsto> ''https://www.bbc.co.uk'',
                       ''in'' \<mapsto> ''https://www.bbc.com/news/world/asia/india'']\<rparr>,
      \<lparr>item_name = ''Google'', item_mainUrl = ''https://www.google.com'',
       item_subUrls = [''in'' \<mapsto> ''https://www.google.co.in'',
                       ''uk'' \<mapsto> ''https://www.google.co.uk'',
                       ''jp'' \<mapsto> ''https://www.google.co.jp'']\<rparr>]"

fun seed_loop ::
  "urlItem list \<Rightarrow> (nat \<Rightarrow> string) \<Rightarrow> (nat \<Rightarrow> timestamp) \<Rightarrow> nat \<Rightarrow> db \<Rightarrow> db_error option \<times> db" where
  "seed_loop [] uuid clock k d = (None, d)"
| "seed_loop (item # items) uuid clock k d =
     (case db_insert (newUrl_row (uuid k) (item_name item) (item_mainUrl item)
                        (item_subUrls item) (clock k)) d of
        Inl e \<Rightarrow> (Some e, d)
      | Inr d' \<Rightarrow> seed_loop items uuid clock (Suc k) d')"

text \<open>
  The migrator is drizzle's, and the folder \<open>./drizzle\<close> it reads is not part of the
  sources: it is taken to create the table when it is missing and to keep the rows that
  are there, and to throw when the database is unreachable.
\<close>

definition migrate :: "db \<Rightarrow> db_error + db" where
  "migrate d = (if online d then Inr d else Inl ConnectionError)"

record app =
  store :: db
  isInitialized :: bool

definition initializeDatabase ::
  "(nat \<Rightarrow> string) \<Rightarrow> (nat \<Rightarrow> timestamp) \<Rightarrow> app \<Rightarrow> db_error option \<times> app" where
  "initializeDatabase uuid clock st =
     (if isInitialized st then (None, st)
      else
        (case migrate (store st) of
           Inl e \<Rightarrow> (Some e, st)
         | Inr d0 \<Rightarrow>
             (case db_select (\<lambda>r. True) d0 of
                Inl e \<Rightarrow> (Some e, st\<lparr>store := d0\<rparr>)
              | Inr rs \<Rightarrow>
                  (if limit 1 rs = [] then
                     (case seed_loop initialData uuid clock 0 d0 of
                        (Some e, d1) \<Rightarrow> (Some e, st\<lparr>store := d1\<rparr>)
                      | (None, d1) \<Rightarrow> (None, \<lparr>store = d1, isInitialized = True\<rparr>))
                   else (None, \<lparr>store = d0, isInitialized = True\<rparr>)))))"

section \<open>The schema\<close>

text \<open>
  A column as the migration and \<open>pgTable\<close> declare it: its name, type, whether it is the
  primary key, whether it is NOT NULL, and its default.
\<close>

datatype pgType = PgText | PgJsonb | PgBoolean | PgTimestamp

datatype pgDefault = NoDefault | DefaultEmptyObject | DefaultFalse | DefaultNow

record column =
  col_name :: string
  col_type :: pgType
  col_primaryKey :: bool
  col_notNull :: bool
  col_default :: pgDefault

text \<open>db/migrations/0000_flawless_gideon.sql: the tables it creates.\<close>

definition migration_0000 :: "(string \<times> column list) list" where
  "migration_0000 =
     [(''urls'',
       [\<lparr>col_name = ''id'', col_type = PgText, col_primaryKey = True, col_notNull = True,
          col_default = NoDefault\<rparr>,
        \<lparr>col_name = ''name'', col_type = PgText, col_primaryKey = False, col_notNull = True,
          col_default = NoDefault\<rparr>,
        \<lparr>col_name = ''main_url'', col_type = PgText, col_primaryKey = False, col_notNull = True,
          col_default = NoDefault\<rparr>,
        \<lparr>col_name = ''sub_urls'', col_type = PgJsonb, col_primaryKey = False, col_notNull = True,
          col_default = DefaultEmptyObject\<rparr>,
        \<lparr>col_name = ''created_at'', col_type = PgTimestamp, col_primaryKey = False,
          col_notNull = True, col_default = DefaultNow\<rparr>,
        \<lparr>col_name = ''updated_at'', col_type = PgTimestamp, col_primaryKey = False,
          col_notNull = True, col_default = DefaultNow\<rparr>])]"

text \<open>
  db/schema.ts: the table the drizzle servers query. (\<open>primaryKey()\<close> makes the column
  NOT NULL.)
\<close>

definition urlsTable :: "string \<times> column list" where
  "urlsTable =
     (''urls'',
      [\<lparr>col_name = ''id'', col_type = PgText, col_primaryKey = True, col_notNull = True,
         col_default = NoDefault\<rparr>,
       \<lparr>col_name = ''name'', col_type = PgText, col_primaryKey = False, col_notNull = True,
         col_default = NoDefault\<rparr>,
       \<lparr>col_name = ''main_url'', col_type = PgText, col_primaryKey = False, col_notNull = True,
         col_default = NoDefault\<rparr>,
       \<lparr>col_name = ''sub_urls'', col_type = PgJsonb, col_primaryKey = False, col_notNull = True,
         col_default = DefaultEmptyObject\<rparr>,
       \<lparr>col_name = ''is_deleted'', col_type = PgBoolean, col_primaryKey = False,
         col_notNull = True, col_default = DefaultFalse\<rparr>,
       \<lparr>col_name = ''deleted_at'', col_type = PgTimestamp, col_primaryKey = False,
         col_notNull = False, col_default = NoDefault\<rparr>,
       \<lparr>col_name = ''created_at'', col_type = PgTimestamp, col_primaryKey = False,
         col_notNull = True, col_default = DefaultNow\<rparr>,
       \<lparr>col_name = ''updated_at'', col_type = PgTimestamp, col_primaryKey = False,
         col_notNull = True, col_default = DefaultNow\<rparr>])"

text \<open>What a column list says of each column: name, type, primary key, nullable.\<close>

definition column_summary :: "column list \<Rightarrow> (string \<times> pgType \<times> bool \<times> bool) list" where
  "column_summary cs = map (\<lambda>c. (col_name c, col_type c, col_primaryKey c, \<not> col_notNull c)) cs"

section \<open>Sequences of requests\<close>

text \<open>
  A primary key holds in a database whose rows have pairwise different ids.
\<close>

definition pk_ok :: "db \<Rightarrow> bool" where
  "pk_ok d = distinct (map id_key (urls d))"

datatype request =
    GetAll
  | GetOne string
  | Create body string timestamp
  | Update string body timestamp
  | Delete string timestamp
  | Startup "nat \<Rightarrow> string" "nat \<Rightarrow> timestamp"
  | Connectivity bool

text \<open>
  The database after one request to a drizzle server. \<open>Startup\<close> is a start of the
  vercel-postgres process (the flag is false in a new process); \<open>Connectivity\<close> is the
  database becoming reachable or unreachable between requests.
\<close>

fun step :: "request \<Rightarrow> db \<Rightarrow> db" where
  "step GetAll d = d"
| "step (GetOne i) d = d"
| "step (Create b newId now) d = snd (post_url b newId now d)"
| "step (Update i b now) d = snd (put_url i b now d)"
| "step (Delete i now) d = snd (delete_url i now d)"
| "step (Startup uuid clock) d =
     store (snd (initializeDatabase uuid clock \<lparr>store = d, isInitialized = False\<rparr>))"
| "step (Connectivity c) d = d\<lparr>online := c\<rparr>"

text \<open>The same for the raw SQL server, whose start only tests the connection.\<close>

fun sql_step :: "request \<Rightarrow> db \<Rightarrow> db" where
  "sql_step GetAll d = d"
| "sql_step (GetOne i) d = d"
| "sql_step (Create b newId now) d = snd (sql_post_url b newId now d)"
| "sql_step (Update i b now) d = snd (sql_put_url i b now d)"
| "sql_step (Delete i now) d = snd (sql_delete_url i now d)"
| "sql_step (Startup uuid clock) d = d"
| "sql_step (Connectivity c) d = d\<lparr>online := c\<rparr>"

definition run :: "request list \<Rightarrow> db \<Rightarrow> db" where
  "run reqs d = fold step reqs d"

definition sql_run :: "request list \<Rightarrow> db \<Rightarrow> db" where
  "sql_run reqs d = fold sql_step reqs d"

definition empty_db :: db where
  "empty_db = \<lparr>urls = [], online = True\<rparr>"

text \<open>The invariant of soft deletion on one row and on a database.\<close>

definition deleted_consistent :: "urlRow \<Rightarrow> bool" where
  "deleted_consistent r = ((deletedAt r \<noteq> None) = isDeleted r)"

definition db_consistent :: "db \<Rightarrow> bool" where
  "db_consistent d = list_all deleted_consistent (urls d)"

section \<open>Lemmas about the store and the handlers\<close>

lemma required_fields_None:
  "body_name b = None \<or> body_name b = Some [] \<or> body_mainUrl b = None \<or> body_mainUrl b = Some []
   \<Longrightarrow> required_fields b = None"
  by (auto simp: required_fields_def split: option.splits)

lemma required_fields_Some:
  "body_name b = Some n \<Longrightarrow> n \<noteq> [] \<Longrightarrow> body_mainUrl b = Some m \<Longrightarrow> m \<noteq> []
   \<Longrightarrow> required_fields b = Some (n, m)"
  by (simp add: required_fields_def)

lemma required_fields_iff:
  "(required_fields b = None) =
   (body_name b = None \<or> body_name b = Some [] \<or> body_mainUrl b = None \<or> body_mainUrl b = Some [])"
  by (auto simp: required_fields_def split: option.splits)

lemma order_by_name_sorted: "sorted (map name (order_by_name rs))"
  by (simp add: order_by_name_def)

lemma order_by_name_mset: "mset (order_by_name rs) = mset rs"
  by (simp add: order_by_name_def)

lemma filter_id_empty:
  "(filter (\<lambda>r. id_key r = i) rs = []) = (\<forall>r\<in>set rs. id_key r \<noteq> i)"
  by (simp add: filter_empty_conv)

lemma pk_unique:
  "pk_ok d \<Longrightarrow> r \<in> set (urls d) \<Longrightarrow> r' \<in> set (urls d) \<Longrightarrow> id_key r = id_key r' \<Longrightarrow> r = r'"
  unfolding pk_ok_def by (metis distinct_map inj_onD)

lemma filter_unique:
  "distinct (map f xs) \<Longrightarrow> x \<in> set xs \<Longrightarrow> filter (\<lambda>y. f y = f x) xs = [x]"
proof (induction xs)
  case Nil
  then show ?case by simp
next
  case (Cons a xs)
  show ?case
  proof (cases "a = x")
    case True
    have "f x \<notin> f ` set xs" using Cons.prems True by simp
    then have "\<forall>y\<in>set xs. f y \<noteq> f x" by (metis imageI)
    then have "filter (\<lambda>y. f y = f x) xs = []" by (simp add: filter_empty_conv)
    then show ?thesis using True by simp
  next
    case False
    then have xin: "x \<in> set xs" using Cons.prems by simp
    have "f a \<notin> f ` set xs" using Cons.prems by simp
    then have "f a \<noteq> f x" using xin by (metis imageI)
    then show ?thesis using Cons.IH Cons.prems xin by simp
  qed
qed

lemma select_active_unique:
  assumes "pk_ok d" "r \<in> set (urls d)" "id_key r = i" "isDeleted r = False"
  shows "filter (\<lambda>x. id_key x = i \<and> isDeleted x = False) (urls d) = [r]"
proof -
  have "filter (\<lambda>x. id_key x = id_key r) (urls d) = [r]"
    using assms(1,2) unfolding pk_ok_def by (rule filter_unique)
  then have "filter (\<lambda>x. isDeleted x = False) (filter (\<lambda>x. id_key x = i) (urls d)) = [r]"
    using assms(3,4) by simp
  then show ?thesis by (simp add: conj_commute)
qed

lemma select_active_none:
  assumes "\<forall>r\<in>set (urls d). id_key r = i \<longrightarrow> isDeleted r"
  shows "filter (\<lambda>x. id_key x = i \<and> isDeleted x = False) (urls d) = []"
  using assms by (auto simp: filter_empty_conv)

lemma put_url_online:
  assumes "online d" and "required_fields b = Some (n, m)"
  shows "put_url i b now d =
     (if filter (\<lambda>r. id_key r = i \<and> isDeleted r = False) (urls d) = []
      then (failure ''URL not found'', d)
      else (ok_data (JObj [(''id'', JStr i), (''name'', JStr n), (''mainUrl'', JStr m),
                           (''subUrls'', JMap (subUrls_or_default (body_subUrls b)))]),
            d\<lparr>urls := map (\<lambda>r. if id_key r = i
                 then r\<lparr>name := n, mainUrl := m,
                        subUrls := subUrls_or_default (body_subUrls b), updatedAt := now\<rparr>
                 else r) (urls d)\<rparr>))"
  using assms by (simp add: put_url_def db_select_def db_update_def limit_def Let_def)

lemma sql_put_url_online:
  assumes "online d" and "required_fields b = Some (n, m)"
  shows "sql_put_url i b now d =
     (if filter (\<lambda>r. id_key r = i \<and> isDeleted r = False) (urls d) = []
      then (failure ''URL not found'', d)
      else (failure ''Failed to update URL'', d))"
  using assms by (simp add: sql_put_url_def db_select_def db_malformed_def limit_def)

lemma put_url_offline:
  "\<not> online d \<Longrightarrow> snd (put_url i b now d) = d"
  "\<not> online d \<Longrightarrow> snd (sql_put_url i b now d) = d"
  by (simp_all add: put_url_def sql_put_url_def db_select_def Let_def split: option.splits prod.splits)

lemma put_url_invalid:
  "required_fields b = None \<Longrightarrow> put_url i b now d = (failure ''Name and mainUrl are required'', d)"
  "required_fields b = None \<Longrightarrow> sql_put_url i b now d = (failure ''Name and mainUrl are required'', d)"
  by (simp_all add: put_url_def sql_put_url_def)

lemma sql_put_url_store: "snd (sql_put_url i b now d) = d"
proof (cases "required_fields b")
  case None
  then show ?thesis by (simp add: put_url_invalid)
next
  case (Some nm)
  obtain n m where nm: "nm = (n, m)" by (cases nm)
  show ?thesis
  proof (cases "online d")
    case True
    show ?thesis
      using sql_put_url_online [OF True Some [unfolded nm], of i now] by simp
  next
    case False
    then show ?thesis by (simp add: put_url_offline)
  qed
qed

lemma put_url_store_cases:
  "snd (put_url i b now d) = d \<or>
   (\<exists>n m s. (\<exists>r\<in>set (urls d). id_key r = i \<and> isDeleted r = False) \<and>
      snd (put_url i b now d) =
        d\<lparr>urls := map (\<lambda>r. if id_key r = i
                               then r\<lparr>name := n, mainUrl := m, subUrls := s, updatedAt := now\<rparr>
                               else r) (urls d)\<rparr>)"
proof (cases "required_fields b")
  case None
  then show ?thesis by (simp add: put_url_invalid)
next
  case (Some nm)
  obtain n m where nm: "nm = (n, m)" by (cases nm)
  show ?thesis
  proof (cases "online d")
    case False
    then show ?thesis by (simp add: put_url_offline)
  next
    case True
    note eq = put_url_online [OF True Some [unfolded nm], of i now]
    show ?thesis
    proof (cases "filter (\<lambda>r. id_key r = i \<and> isDeleted r = False) (urls d) = []")
      case True
      then show ?thesis using eq by simp
    next
      case False
      then have ex: "\<exists>r\<in>set (urls d). id_key r = i \<and> isDeleted r = False"
        by (auto simp: filter_empty_conv)
      have "snd (put_url i b now d) =
        d\<lparr>urls := map (\<lambda>r. if id_key r = i
                 then r\<lparr>name := n, mainUrl := m,
                        subUrls := subUrls_or_default (body_subUrls b), updatedAt := now\<rparr>
                 else r) (urls d)\<rparr>"
        using eq False by simp
      then show ?thesis using ex by blast
    qed
  qed
qed

lemma newUrl_row_id: "id_key (newUrl_row i n m s now) = i"
  by (simp add: newUrl_row_def)

lemma post_url_online:
  assumes "online d" and "required_fields b = Some (n, m)"
  shows "post_url b newId now d =
     (if newId \<in> id_key ` set (urls d) then (failure ''Failed to create URL'', d)
      else (ok_data (JObj [(''id'', JStr newId), (''name'', JStr n), (''mainUrl'', JStr m),
                           (''subUrls'', JMap (subUrls_or_default (body_subUrls b))),
                           (''isDeleted'', JBool False)]),
            d\<lparr>urls := urls d @ [newUrl_row newId n m (subUrls_or_default (body_subUrls b)) now]\<rparr>))"
  using assms by (simp add: post_url_def db_insert_def Let_def newUrl_row_id)

lemma sql_post_url_valid:
  assumes "required_fields b = Some (n, m)"
  shows "sql_post_url b newId now d = (failure ''Failed to create URL'', d)"
  using assms by (simp add: sql_post_url_def db_malformed_def)

lemma post_url_offline:
  "\<not> online d \<Longrightarrow> snd (post_url b newId now d) = d"
  by (simp add: post_url_def db_insert_def Let_def split: option.splits prod.splits)

lemma post_url_invalid:
  "required_fields b = None \<Longrightarrow> post_url b newId now d = (failure ''Name and mainUrl are required'', d)"
  "required_fields b = None \<Longrightarrow> sql_post_url b newId now d = (failure ''Name and mainUrl are required'', d)"
  by (simp_all add: post_url_def sql_post_url_def)

lemma sql_post_url_store: "snd (sql_post_url b newId now d) = d"
proof (cases "required_fields b")
  case None
  then show ?thesis by (simp add: post_url_invalid)
next
  case (Some nm)
  obtain n m where nm: "nm = (n, m)" by (cases nm)
  show ?thesis using sql_post_url_valid [OF Some [unfolded nm]] by simp
qed

lemma post_url_store_cases:
  "snd (post_url b newId now d) = d \<or>
   (\<exists>n m s. newId \<notin> id_key ` set (urls d) \<and>
      snd (post_url b newId now d) = d\<lparr>urls := urls d @ [newUrl_row newId n m s now]\<rparr>)"
proof (cases "required_fields b")
  case None
  then show ?thesis by (simp add: post_url_invalid)
next
  case (Some nm)
  obtain n m where nm: "nm = (n, m)" by (cases nm)
  show ?thesis
  proof (cases "online d")
    case False
    then show ?thesis by (simp add: post_url_offline)
  next
    case True
    note eq = post_url_online [OF True Some [unfolded nm], of newId now]
    show ?thesis
    proof (cases "newId \<in> id_key ` set (urls d)")
      case True
      then show ?thesis using eq by simp
    next
      case False
      then show ?thesis using eq by auto
    qed
  qed
qed

lemma delete_url_store:
  "snd (delete_url i now d) =
     (if online d
      then d\<lparr>urls := map (\<lambda>r. if id_key r = i then r\<lparr>isDeleted := True, deletedAt := Some now\<rparr>
                               else r) (urls d)\<rparr>
      else d)"
  by (simp add: delete_url_def db_update_def)

lemma sql_delete_url_fails: "sql_delete_url i now d = (failure ''Failed to delete URL'', d)"
  by (simp add: sql_delete_url_def db_malformed_def)

lemma sql_delete_url_store: "snd (sql_delete_url i now d) = d"
  by (simp add: sql_delete_url_fails)

lemma put_url_keeps_deleted:
  assumes "pk_ok d" and "x \<in> set (urls d)" and "isDeleted x"
  shows "x \<in> set (urls (snd (put_url j c t d)))"
proof -
  from put_url_store_cases [of j c t d]
  show ?thesis
  proof
    assume "snd (put_url j c t d) = d"
    then show ?thesis using assms(2) by simp
  next
    assume "\<exists>n m s. (\<exists>r\<in>set (urls d). id_key r = j \<and> isDeleted r = False) \<and>
      snd (put_url j c t d) =
        d\<lparr>urls := map (\<lambda>r. if id_key r = j
                               then r\<lparr>name := n, mainUrl := m, subUrls := s, updatedAt := t\<rparr>
                               else r) (urls d)\<rparr>"
    then obtain n m s r where r: "r \<in> set (urls d)" "id_key r = j" "isDeleted r = False"
      and eq: "snd (put_url j c t d) =
        d\<lparr>urls := map (\<lambda>r. if id_key r = j
                               then r\<lparr>name := n, mainUrl := m, subUrls := s, updatedAt := t\<rparr>
                               else r) (urls d)\<rparr>"
      by blast
    have "id_key x \<noteq> j"
      using pk_unique [OF assms(1) assms(2) r(1)] r(2,3) assms(3) by auto
    then have "x \<in> (\<lambda>r. if id_key r = j
                               then r\<lparr>name := n, mainUrl := m, subUrls := s, updatedAt := t\<rparr>
                               else r) ` set (urls d)"
      by (intro rev_image_eqI [OF assms(2)]) simp
    then show ?thesis by (simp add: eq)
  qed
qed

lemma put_url_flags:
  "map isDeleted (urls (snd (put_url i b now d))) = map isDeleted (urls d)
   \<and> map deletedAt (urls (snd (put_url i b now d))) = map deletedAt (urls d)"
proof -
  from put_url_store_cases [of i b now d] show ?thesis
  proof
    assume "snd (put_url i b now d) = d" then show ?thesis by simp
  next
    assume "\<exists>n m s. (\<exists>r\<in>set (urls d). id_key r = i \<and> isDeleted r = False) \<and>
      snd (put_url i b now d) =
        d\<lparr>urls := map (\<lambda>r. if id_key r = i
                               then r\<lparr>name := n, mainUrl := m, subUrls := s, updatedAt := now\<rparr>
                               else r) (urls d)\<rparr>"
    then obtain n m s where eq: "snd (put_url i b now d) =
        d\<lparr>urls := map (\<lambda>r. if id_key r = i
                               then r\<lparr>name := n, mainUrl := m, subUrls := s, updatedAt := now\<rparr>
                               else r) (urls d)\<rparr>"
      by blast
    show ?thesis by (simp add: eq comp_def if_distrib cong: if_cong)
  qed
qed

lemma post_url_new_row:
  "\<forall>r\<in>set (urls (snd (post_url b newId now d))).
      r \<in> set (urls d) \<or> (isDeleted r = False \<and> deletedAt r = None)"
proof -
  from post_url_store_cases [of b newId now d] show ?thesis
  proof
    assume "snd (post_url b newId now d) = d" then show ?thesis by simp
  next
    assume "\<exists>n m s. newId \<notin> id_key ` set (urls d) \<and>
      snd (post_url b newId now d) = d\<lparr>urls := urls d @ [newUrl_row newId n m s now]\<rparr>"
    then obtain n m s where
      eq: "snd (post_url b newId now d) = d\<lparr>urls := urls d @ [newUrl_row newId n m s now]\<rparr>"
      by blast
    show ?thesis by (auto simp: eq newUrl_row_def)
  qed
qed

lemma delete_url_sets_both:
  "\<forall>r\<in>set (urls (snd (delete_url i now d))).
      r \<in> set (urls d) \<or> (isDeleted r = True \<and> deletedAt r = Some now)"
  by (auto simp: delete_url_store)

lemma list_all_map_flags:
  assumes "map isDeleted xs = map isDeleted ys" and "map deletedAt xs = map deletedAt ys"
  shows "list_all deleted_consistent xs = list_all deleted_consistent ys"
  using assms
proof (induction xs arbitrary: ys)
  case Nil
  then show ?case by simp
next
  case (Cons x xs)
  then obtain y ys' where ys: "ys = y # ys'" by (cases ys) auto
  with Cons show ?case by (simp add: deleted_consistent_def)
qed

lemma db_consistent_put: "db_consistent d \<Longrightarrow> db_consistent (snd (put_url i b now d))"
  unfolding db_consistent_def
  using list_all_map_flags [of "urls (snd (put_url i b now d))" "urls d"] put_url_flags [of i b now d]
  by simp

lemma db_consistent_post:
  assumes "db_consistent d"
  shows "db_consistent (snd (post_url b newId now d))"
  unfolding db_consistent_def list_all_iff
proof
  fix r
  assume "r \<in> set (urls (snd (post_url b newId now d)))"
  then have "r \<in> set (urls d) \<or> (isDeleted r = False \<and> deletedAt r = None)"
    using post_url_new_row [of b newId now d] by blast
  then show "deleted_consistent r"
  proof
    assume "r \<in> set (urls d)"
    then show ?thesis using assms by (simp add: db_consistent_def list_all_iff)
  next
    assume "isDeleted r = False \<and> deletedAt r = None"
    then show ?thesis by (simp add: deleted_consistent_def)
  qed
qed

lemma db_consistent_delete:
  assumes "db_consistent d"
  shows "db_consistent (snd (delete_url i now d))"
  unfolding db_consistent_def list_all_iff
proof
  fix r
  assume "r \<in> set (urls (snd (delete_url i now d)))"
  then have "r \<in> set (urls d) \<or> (isDeleted r = True \<and> deletedAt r = Some now)"
    using delete_url_sets_both [of i now d] by blast
  then show "deleted_consistent r"
  proof
    assume "r \<in> set (urls d)"
    then show ?thesis using assms by (simp add: db_consistent_def list_all_iff)
  next
    assume "isDeleted r = True \<and> deletedAt r = Some now"
    then show ?thesis by (simp add: deleted_consistent_def)
  qed
qed

lemma db_consistent_seed_loop:
  "db_consistent d \<Longrightarrow> db_consistent (snd (seed_loop items uuid clock k d))"
proof (induction items arbitrary: k d)
  case Nil
  then show ?case by simp
next
  case (Cons item items)
  show ?case
  proof (cases "db_insert (newUrl_row (uuid k) (item_name item) (item_mainUrl item)
                        (item_subUrls item) (clock k)) d")
    case (Inl e)
    then show ?thesis using Cons.prems by simp
  next
    case (Inr d')
    then have "d' = d\<lparr>urls := urls d @ [newUrl_row (uuid k) (item_name item) (item_mainUrl item)
                        (item_subUrls item) (clock k)]\<rparr>"
      by (auto simp: db_insert_def split: if_splits)
    then have "db_consistent d'"
      using Cons.prems by (simp add: db_consistent_def deleted_consistent_def newUrl_row_def)
    then show ?thesis using Inr Cons.IH by simp
  qed
qed

lemma db_consistent_initializeDatabase:
  assumes "db_consistent (store st)"
  shows "db_consistent (store (snd (initializeDatabase uuid clock st)))"
proof (cases "isInitialized st")
  case True
  then show ?thesis using assms by (simp add: initializeDatabase_def)
next
  case False
  show ?thesis
  proof (cases "online (store st)")
    case False
    then show ?thesis using assms \<open>\<not> isInitialized st\<close>
      by (simp add: initializeDatabase_def migrate_def)
  next
    case True
    have sl: "db_consistent (snd (seed_loop initialData uuid clock 0 (store st)))"
      using assms by (rule db_consistent_seed_loop)
    show ?thesis
      using assms True \<open>\<not> isInitialized st\<close> sl
      by (auto simp: initializeDatabase_def migrate_def db_select_def
               split: prod.splits option.splits)
  qed
qed

lemma db_consistent_online: "db_consistent (d\<lparr>online := c\<rparr>) = db_consistent d"
  by (simp add: db_consistent_def)

lemma db_consistent_step:
  assumes "db_consistent d"
  shows "db_consistent (step req d)"
proof (cases req)
  case GetAll
  then show ?thesis using assms by simp
next
  case (GetOne i)
  then show ?thesis using assms by simp
next
  case (Create b newId now)
  then show ?thesis using assms by (simp add: db_consistent_post)
next
  case (Update i b now)
  then show ?thesis using assms by (simp add: db_consistent_put)
next
  case (Delete i now)
  then show ?thesis using assms by (simp add: db_consistent_delete)
next
  case (Startup uuid clock)
  then show ?thesis
    using assms db_consistent_initializeDatabase [of "\<lparr>store = d, isInitialized = False\<rparr>" uuid clock]
    by simp
next
  case (Connectivity c)
  then show ?thesis using assms by (simp add: db_consistent_online)
qed

lemma db_consistent_sql_step:
  assumes "db_consistent d"
  shows "db_consistent (sql_step req d)"
proof (cases req)
  case (Connectivity c)
  then show ?thesis using assms by (simp add: db_consistent_online)
qed (simp_all add: assms sql_post_url_store sql_put_url_store sql_delete_url_store)

lemma db_consistent_fold_step: "db_consistent d \<Longrightarrow> db_consistent (fold step reqs d)"
  by (induction reqs arbitrary: d) (simp_all add: db_consistent_step)

lemma db_consistent_fold_sql_step: "db_consistent d \<Longrightarrow> db_consistent (fold sql_step reqs d)"
  by (induction reqs arbitrary: d) (simp_all add: db_consistent_sql_step)

lemma db_consistent_empty: "db_consistent empty_db"
  by (simp add: db_consistent_def empty_db_def)

lemma seed_loop_initialData:
  assumes "online d" and "urls d = []" and "uuid 0 \<noteq> uuid (Suc 0)"
  shows "seed_loop initialData uuid clock 0 d =
     (None, d\<lparr>urls :=
        [newUrl_row (uuid 0) ''BBC News'' ''https://www.bbc.com''
           [''us'' \<mapsto> ''https://www.bbc.com/news/world/us_and_canada'',
            ''uk'' \<mapsto> ''https://www.bbc.co.uk'',
            ''in'' \<mapsto> ''https://www.bbc.com/news/world/asia/india''] (clock 0),
         newUrl_row (uuid (Suc 0)) ''Google'' ''https://www.google.com''
           [''in'' \<mapsto> ''https://www.google.co.in'',
            ''uk'' \<mapsto> ''https://www.google.co.uk'',
            ''jp'' \<mapsto> ''https://www.google.co.jp''] (clock (Suc 0))]\<rparr>)"
  using assms by (simp add: initialData_def db_insert_def newUrl_row_id)

lemma put_url_ids: "map id_key (urls (snd (put_url i b now d))) = map id_key (urls d)"
proof -
  from put_url_store_cases [of i b now d] show ?thesis
  proof
    assume "snd (put_url i b now d) = d" then show ?thesis by simp
  next
    assume "\<exists>n m s. (\<exists>r\<in>set (urls d). id_key r = i \<and> isDeleted r = False) \<and>
      snd (put_url i b now d) =
        d\<lparr>urls := map (\<lambda>r. if id_key r = i
                               then r\<lparr>name := n, mainUrl := m, subUrls := s, updatedAt := now\<rparr>
                               else r) (urls d)\<rparr>"
    then obtain n m s where eq: "snd (put_url i b now d) =
        d\<lparr>urls := map (\<lambda>r. if id_key r = i
                               then r\<lparr>name := n, mainUrl := m, subUrls := s, updatedAt := now\<rparr>
                               else r) (urls d)\<rparr>"
      by blast
    show ?thesis by (simp add: eq comp_def if_distrib cong: if_cong)
  qed
qed

lemma delete_url_ids: "map id_key (urls (snd (delete_url i now d))) = map id_key (urls d)"
  by (simp add: delete_url_store comp_def if_distrib cong: if_cong)

lemma pk_ok_insert:
  "pk_ok d \<Longrightarrow> db_insert r d = Inr d' \<Longrightarrow> pk_ok d'"
  by (auto simp: db_insert_def pk_ok_def split: if_splits)

lemma pk_ok_post: "pk_ok d \<Longrightarrow> pk_ok (snd (post_url b newId now d))"
  using post_url_store_cases [of b newId now d]
  by (auto simp: pk_ok_def newUrl_row_id)

lemma pk_ok_seed_loop:
  "pk_ok d \<Longrightarrow> pk_ok (snd (seed_loop items uuid clock k d))"
proof (induction items arbitrary: k d)
  case Nil
  then show ?case by simp
next
  case (Cons item items)
  show ?case
  proof (cases "db_insert (newUrl_row (uuid k) (item_name item) (item_mainUrl item)
                        (item_subUrls item) (clock k)) d")
    case (Inl e)
    then show ?thesis using Cons.prems by simp
  next
    case (Inr d')
    then have "pk_ok d'" using Cons.prems pk_ok_insert by blast
    then show ?thesis using Inr Cons.IH by simp
  qed
qed

lemma pk_ok_initializeDatabase:
  assumes "pk_ok (store st)"
  shows "pk_ok (store (snd (initializeDatabase uuid clock st)))"
proof (cases "isInitialized st")
  case True
  then show ?thesis using assms by (simp add: initializeDatabase_def)
next
  case False
  show ?thesis
  proof (cases "online (store st)")
    case False
    then show ?thesis using assms \<open>\<not> isInitialized st\<close>
      by (simp add: initializeDatabase_def migrate_def)
  next
    case True
    have sl: "pk_ok (snd (seed_loop initialData uuid clock 0 (store st)))"
      using assms by (rule pk_ok_seed_loop)
    show ?thesis
      using assms True \<open>\<not> isInitialized st\<close> sl
      by (auto simp: initializeDatabase_def migrate_def db_select_def
               split: prod.splits option.splits)
  qed
qed

lemma pk_ok_step:
  assumes "pk_ok d"
  shows "pk_ok (step req d)"
proof (cases req)
  case GetAll
  then show ?thesis using assms by simp
next
  case (GetOne i)
  then show ?thesis using assms by simp
next
  case (Create b newId now)
  then show ?thesis using assms by (simp add: pk_ok_post)
next
  case (Update i b now)
  then show ?thesis using assms by (simp add: pk_ok_def put_url_ids)
next
  case (Delete i now)
  then show ?thesis using assms by (simp add: pk_ok_def delete_url_ids)
next
  case (Startup uuid clock)
  then show ?thesis
    using assms pk_ok_initializeDatabase [of "\<lparr>store = d, isInitialized = False\<rparr>" uuid clock]
    by simp
next
  case (Connectivity c)
  then show ?thesis using assms by (simp add: pk_ok_def)
qed

lemma pk_ok_sql_step:
  assumes "pk_ok d"
  shows "pk_ok (sql_step req d)"
proof (cases req)
  case (Connectivity c)
  then show ?thesis using assms by (simp add: pk_ok_def)
qed (simp_all add: assms sql_post_url_store sql_put_url_store sql_delete_url_store)

lemma pk_ok_reachable: "pk_ok (run reqs empty_db) \<and> pk_ok (sql_run reqs empty_db)"
proof -
  have e: "pk_ok empty_db" by (simp add: pk_ok_def empty_db_def)
  have a: "pk_ok d \<Longrightarrow> pk_ok (fold step reqs d)" for d
    by (induction reqs arbitrary: d) (simp_all add: pk_ok_step)
  have b: "pk_ok d \<Longrightarrow> pk_ok (fold sql_step reqs d)" for d
    by (induction reqs arbitrary: d) (simp_all add: pk_ok_sql_step)
  show ?thesis using a [OF e] b [OF e] by (simp add: run_def sql_run_def)
qed

lemma stub_get_urls_data:
  "stub_get_urls = JObj [(''success'', JBool True), (''data'', JArr (map row_json [])),
                         (''message'', JStr ''API endpoint working - no database yet'')]"
  by (simp add: stub_get_urls_def)

lemma delete_url_reports_success:
  "online d \<Longrightarrow> fst (delete_url i now d) = ok_message ''URL deleted successfully''"
  by (simp add: delete_url_def db_update_def)

section \<open>Delete\<close>

text \<open>
  Claim C1. The claim is that delete answers \<open>{success: false, error: "URL not found"}\<close>
  only if the UPDATE matched no row and answers
  \<open>{success: true, message: "URL deleted successfully"}\<close> in every other case. The
  drizzle handlers do so (\<open>delete_url_reports_success\<close>: they report success for every
  id). The raw SQL handler, which is the one that tests \<open>result.rows.length === 0\<close>, does
  not: its UPDATE sets \<open>"deletedAt" = ()NOW\<close>, the database rejects it, and for a row that
  exists and a database that is reachable the handler answers
  \<open>{success: false, error: "Failed to delete URL"}\<close> and the row stays as it was, where
  the drizzle handler on the same input reports success and soft-deletes the row.
\<close>

theorem raw_sql_delete_fails_on_existing_row:
  "sql_delete_url ''u1'' 9
     \<lparr>urls = [\<lparr>id_key = ''u1'', name = ''Example'', mainUrl = ''https://example.com'',
               subUrls = Map.empty, isDeleted = False, deletedAt = None,
               createdAt = 1, updatedAt = 1\<rparr>], online = True\<rparr>
   = (failure ''Failed to delete URL'',
      \<lparr>urls = [\<lparr>id_key = ''u1'', name = ''Example'', mainUrl = ''https://example.com'',
                subUrls = Map.empty, isDeleted = False, deletedAt = None,
                createdAt = 1, updatedAt = 1\<rparr>], online = True\<rparr>)
   \<and> fst (sql_delete_url ''u1'' 9
     \<lparr>urls = [\<lparr>id_key = ''u1'', name = ''Example'', mainUrl = ''https://example.com'',
               subUrls = Map.empty, isDeleted = False, deletedAt = None,
               createdAt = 1, updatedAt = 1\<rparr>], online = True\<rparr>)
     \<noteq> ok_message ''URL deleted successfully''
   \<and> delete_url ''u1'' 9
     \<lparr>urls = [\<lparr>id_key = ''u1'', name = ''Example'', mainUrl = ''https://example.com'',
               subUrls = Map.empty, isDeleted = False, deletedAt = None,
               createdAt = 1, updatedAt = 1\<rparr>], online = True\<rparr>
   = (ok_message ''URL deleted successfully'',
      \<lparr>urls = [\<lparr>id_key = ''u1'', name = ''Example'', mainUrl = ''https://example.com'',
                subUrls = Map.empty, isDeleted = True, deletedAt = Some 9,
                createdAt = 1, updatedAt = 1\<rparr>], online = True\<rparr>)"
  by (simp add: sql_delete_url_def db_malformed_def delete_url_def db_update_def
        failure_def ok_message_def)

section \<open>The schema and the migration\<close>

text \<open>
  Claim C2. The claim is that the migration creates one table \<open>urls\<close> with exactly the
  columns id, name, main_url, sub_urls, is_deleted, deleted_at, created_at and updated_at.
  The table that db/schema.ts declares has these eight columns, with \<open>id\<close> the primary key
  and \<open>deleted_at\<close> the only nullable one; the table that the migration
  0000_flawless_gideon.sql creates has six of them: \<open>is_deleted\<close> and \<open>deleted_at\<close>, which
  every handler of the drizzle servers reads or writes, are missing from it.
\<close>

theorem migration_0000_lacks_soft_delete_columns:
  "map (\<lambda>(t, cs). (t, column_summary cs)) migration_0000 =
     [(''urls'',
       [(''id'', PgText, True, False), (''name'', PgText, False, False),
        (''main_url'', PgText, False, False), (''sub_urls'', PgJsonb, False, False),
        (''created_at'', PgTimestamp, False, False), (''updated_at'', PgTimestamp, False, False)])]
   \<and> (fst urlsTable, column_summary (snd urlsTable)) =
     (''urls'',
      [(''id'', PgText, True, False), (''name'', PgText, False, False),
       (''main_url'', PgText, False, False), (''sub_urls'', PgJsonb, False, False),
       (''is_deleted'', PgBoolean, False, False), (''deleted_at'', PgTimestamp, False, True),
       (''created_at'', PgTimestamp, False, False), (''updated_at'', PgTimestamp, False, False)])
   \<and> map_of migration_0000 ''urls'' \<noteq> Some (snd urlsTable)"
  by (simp add: migration_0000_def urlsTable_def column_summary_def)

section \<open>Update of an existing record\<close>

text \<open>
  Claim C3, as stated, fails on the drizzle servers: the \<open>data\<close> of a successful update
  is the object \<open>updatedUrl = {id, name, mainUrl, subUrls}\<close> that the handler builds from
  the request, not the stored record with its flags and timestamps.
\<close>

theorem update_data_is_not_full_record:
  "put_url ''u1''
     \<lparr>body_name = Some ''New'', body_mainUrl = Some ''https://new.example'', body_subUrls = None\<rparr> 9
     \<lparr>urls = [\<lparr>id_key = ''u1'', name = ''Old'', mainUrl = ''https://old.example'',
               subUrls = [''a'' \<mapsto> ''http://x''], isDeleted = False, deletedAt = None,
               createdAt = 1, updatedAt = 1\<rparr>], online = True\<rparr>
   = (ok_data (JObj [(''id'', JStr ''u1''), (''name'', JStr ''New''),
                     (''mainUrl'', JStr ''https://new.example''), (''subUrls'', JMap Map.empty)]),
      \<lparr>urls = [\<lparr>id_key = ''u1'', name = ''New'', mainUrl = ''https://new.example'',
                subUrls = Map.empty, isDeleted = False, deletedAt = None,
                createdAt = 1, updatedAt = 9\<rparr>], online = True\<rparr>)
   \<and> ok_data (JObj [(''id'', JStr ''u1''), (''name'', JStr ''New''),
                     (''mainUrl'', JStr ''https://new.example''), (''subUrls'', JMap Map.empty)])
     \<noteq> ok_data (row_json \<lparr>id_key = ''u1'', name = ''New'', mainUrl = ''https://new.example'',
                subUrls = Map.empty, isDeleted = False, deletedAt = None,
                createdAt = 1, updatedAt = 9\<rparr>)"
  by (simp add: put_url_def required_fields_def subUrls_or_default_def db_select_def
        db_update_def limit_def ok_data_def row_json_def Let_def)

text \<open>
  Claim C3, amended. In the drizzle servers, for a reachable database in which the primary
  key holds, an id whose row \<open>r\<close> is not soft-deleted and a body with non-empty \<open>name\<close>
  and \<open>mainUrl\<close>, the update succeeds; it overwrites \<open>name\<close>, \<open>mainUrl\<close> and \<open>subUrls\<close> of
  that row (\<open>subUrls\<close> with the empty mapping when the body has none), sets its
  \<open>updatedAt\<close> to the time of the request and leaves every other row and every other
  field as it was. The \<open>data\<close> of the envelope is \<open>{id, name, mainUrl, subUrls}\<close> of the
  updated record.
\<close>

theorem update_overwrites_and_returns_view:
  assumes "online d" and "pk_ok d"
    and "r \<in> set (urls d)" and "id_key r = i" and "isDeleted r = False"
    and "body_name b = Some n" and "n \<noteq> []" and "body_mainUrl b = Some m" and "m \<noteq> []"
  shows "put_url i b now d =
           (ok_data (JObj [(''id'', JStr i), (''name'', JStr n), (''mainUrl'', JStr m),
                           (''subUrls'', JMap (subUrls_or_default (body_subUrls b)))]),
            d\<lparr>urls := map (\<lambda>x. if x = r
                 then r\<lparr>name := n, mainUrl := m,
                        subUrls := subUrls_or_default (body_subUrls b), updatedAt := now\<rparr>
                 else x) (urls d)\<rparr>)
       \<and> r\<lparr>name := n, mainUrl := m,
             subUrls := subUrls_or_default (body_subUrls b), updatedAt := now\<rparr>
           \<in> set (urls (snd (put_url i b now d)))"
proof -
  let ?f = "\<lambda>x. x\<lparr>name := n, mainUrl := m,
                   subUrls := subUrls_or_default (body_subUrls b), updatedAt := now\<rparr>"
  have rf: "required_fields b = Some (n, m)"
    using assms(6-9) by (rule required_fields_Some)
  have act: "filter (\<lambda>x. id_key x = i \<and> isDeleted x = False) (urls d) = [r]"
    using assms(2-5) by (rule select_active_unique)
  have same: "map (\<lambda>x. if id_key x = i then ?f x else x) (urls d)
            = map (\<lambda>x. if x = r then ?f r else x) (urls d)"
  proof (rule map_cong [OF refl])
    fix x assume x: "x \<in> set (urls d)"
    have "id_key x = i \<longleftrightarrow> x = r"
      using pk_unique [OF assms(2) x assms(3)] assms(4) by auto
    then show "(if id_key x = i then ?f x else x) = (if x = r then ?f r else x)"
      by auto
  qed
  have p: "put_url i b now d =
           (ok_data (JObj [(''id'', JStr i), (''name'', JStr n), (''mainUrl'', JStr m),
                           (''subUrls'', JMap (subUrls_or_default (body_subUrls b)))]),
            d\<lparr>urls := map (\<lambda>x. if x = r then ?f r else x) (urls d)\<rparr>)"
    using put_url_online [OF assms(1) rf, of i now] act same by simp
  have "?f r \<in> (\<lambda>x. if x = r then ?f r else x) ` set (urls d)"
    by (rule rev_image_eqI [OF assms(3)]) simp
  then have m: "?f r \<in> set (urls (snd (put_url i b now d)))"
    by (simp add: p)
  show ?thesis by (intro conjI) (rule p, rule m)
qed

text \<open>
  An update of the one stored row by the drizzle handler.
\<close>

theorem update_overwrites_and_returns_view_witness:
  "put_url ''u1''
     \<lparr>body_name = Some ''New'', body_mainUrl = Some ''https://new.example'', body_subUrls = None\<rparr> 9
     \<lparr>urls = [\<lparr>id_key = ''u1'', name = ''Old'', mainUrl = ''https://old.example'',
               subUrls = [''a'' \<mapsto> ''http://x''], isDeleted = False, deletedAt = None,
               createdAt = 1, updatedAt = 1\<rparr>], online = True\<rparr>
   = (ok_data (JObj [(''id'', JStr ''u1''), (''name'', JStr ''New''),
                     (''mainUrl'', JStr ''https://new.example''), (''subUrls'', JMap Map.empty)]),
      \<lparr>urls = [\<lparr>id_key = ''u1'', name = ''New'', mainUrl = ''https://new.example'',
                subUrls = Map.empty, isDeleted = False, deletedAt = None,
                createdAt = 1, updatedAt = 9\<rparr>], online = True\<rparr>)"
  using update_overwrites_and_returns_view
    [of "\<lparr>urls = [\<lparr>id_key = ''u1'', name = ''Old'', mainUrl = ''https://old.example'',
               subUrls = [''a'' \<mapsto> ''http://x''], isDeleted = False, deletedAt = None,
               createdAt = 1, updatedAt = 1\<rparr>], online = True\<rparr>"
        "\<lparr>id_key = ''u1'', name = ''Old'', mainUrl = ''https://old.example'',
               subUrls = [''a'' \<mapsto> ''http://x''], isDeleted = False, deletedAt = None,
               createdAt = 1, updatedAt = 1\<rparr>"
        "''u1''"
        "\<lparr>body_name = Some ''New'', body_mainUrl = Some ''https://new.example'', body_subUrls = None\<rparr>"
        "''New''" "''https://new.example''" 9]
  by (simp add: pk_ok_def subUrls_or_default_def)

section \<open>List\<close>

text \<open>
  Claim C4. While the database is reachable, the list operation returns the rows with
  \<open>isDeleted = false\<close>, each of them once and no other row, in ascending order of
  \<open>name\<close>; it answers \<open>{success: false, error: "Failed to fetch URLs"}\<close> exactly when the
  database is unreachable. This holds of the drizzle handlers and of the raw SQL handler.
  (The minimal server has no database and always answers with the empty list, see
  \<open>stub_get_urls_data\<close>.)
\<close>

theorem list_active_sorted:
  "(online d \<longrightarrow>
      (\<exists>rs. get_urls d = ok_data (JArr (map row_json rs))
          \<and> sql_get_urls d = ok_data (JArr (map sql_row_json rs))
          \<and> mset rs = filter_mset (\<lambda>r. isDeleted r = False) (mset (urls d))
          \<and> sorted (map name rs)))
   \<and> (\<not> online d \<longrightarrow>
         get_urls d = failure ''Failed to fetch URLs''
       \<and> sql_get_urls d = failure ''Failed to fetch URLs'')
   \<and> ((get_urls d = failure ''Failed to fetch URLs'') = (\<not> online d))
   \<and> ((sql_get_urls d = failure ''Failed to fetch URLs'') = (\<not> online d))"
proof -
  let ?rs = "order_by_name (filter (\<lambda>r. isDeleted r = False) (urls d))"
  have a: "online d \<Longrightarrow> get_urls d = ok_data (JArr (map row_json ?rs))"
    by (simp add: get_urls_def db_select_def)
  have b: "online d \<Longrightarrow> sql_get_urls d = ok_data (JArr (map sql_row_json ?rs))"
    by (simp add: sql_get_urls_def db_select_def)
  have c: "mset ?rs = filter_mset (\<lambda>r. isDeleted r = False) (mset (urls d))"
    by (simp add: order_by_name_mset)
  have srt: "sorted (map name ?rs)" by (rule order_by_name_sorted)
  have e: "\<not> online d \<Longrightarrow> get_urls d = failure ''Failed to fetch URLs''"
    by (simp add: get_urls_def db_select_def)
  have f: "\<not> online d \<Longrightarrow> sql_get_urls d = failure ''Failed to fetch URLs''"
    by (simp add: sql_get_urls_def db_select_def)
  have g: "online d \<Longrightarrow> get_urls d \<noteq> failure ''Failed to fetch URLs''"
    by (simp add: a ok_data_def failure_def)
  have h: "online d \<Longrightarrow> sql_get_urls d \<noteq> failure ''Failed to fetch URLs''"
    by (simp add: b ok_data_def failure_def)
  show ?thesis using a b c srt e f g h by blast
qed

text \<open>
  A database of three rows, one of them soft-deleted, listed in the order of the names.
\<close>

theorem list_active_sorted_witness:
  "online \<lparr>urls = [\<lparr>id_key = ''u2'', name = ''Google'', mainUrl = ''https://www.google.com'',
                      subUrls = Map.empty, isDeleted = False, deletedAt = None,
                      createdAt = 2, updatedAt = 2\<rparr>,
                    \<lparr>id_key = ''u3'', name = ''Old'', mainUrl = ''https://old.example'',
                      subUrls = Map.empty, isDeleted = True, deletedAt = Some 5,
                      createdAt = 3, updatedAt = 3\<rparr>,
                    \<lparr>id_key = ''u1'', name = ''BBC News'', mainUrl = ''https://www.bbc.com'',
                      subUrls = Map.empty, isDeleted = False, deletedAt = None,
                      createdAt = 4, updatedAt = 4\<rparr>], online = True\<rparr>
   \<and> (\<exists>rs. get_urls
               \<lparr>urls = [\<lparr>id_key = ''u2'', name = ''Google'', mainUrl = ''https://www.google.com'',
                          subUrls = Map.empty, isDeleted = False, deletedAt = None,
                          createdAt = 2, updatedAt = 2\<rparr>,
                        \<lparr>id_key = ''u3'', name = ''Old'', mainUrl = ''https://old.example'',
                          subUrls = Map.empty, isDeleted = True, deletedAt = Some 5,
                          createdAt = 3, updatedAt = 3\<rparr>,
                        \<lparr>id_key = ''u1'', name = ''BBC News'', mainUrl = ''https://www.bbc.com'',
                          subUrls = Map.empty, isDeleted = False, deletedAt = None,
                          createdAt = 4, updatedAt = 4\<rparr>], online = True\<rparr>
             = ok_data (JArr (map row_json rs))
           \<and> map id_key rs = [''u1'', ''u2''])"
proof -
  let ?g = "\<lparr>id_key = ''u2'', name = ''Google'', mainUrl = ''https://www.google.com'',
             subUrls = Map.empty, isDeleted = False, deletedAt = None,
             createdAt = 2, updatedAt = 2\<rparr>"
  let ?o = "\<lparr>id_key = ''u3'', name = ''Old'', mainUrl = ''https://old.example'',
             subUrls = Map.empty, isDeleted = True, deletedAt = Some 5,
             createdAt = 3, updatedAt = 3\<rparr>"
  let ?b = "\<lparr>id_key = ''u1'', name = ''BBC News'', mainUrl = ''https://www.bbc.com'',
             subUrls = Map.empty, isDeleted = False, deletedAt = None,
             createdAt = 4, updatedAt = 4\<rparr>"
  let ?d = "\<lparr>urls = [?g, ?o, ?b], online = True\<rparr>"
  have on: "online ?d" by simp
  from list_active_sorted [of ?d] on
  obtain rs where g: "get_urls ?d = ok_data (JArr (map row_json rs))"
    and m: "mset rs = filter_mset (\<lambda>r. isDeleted r = False) (mset (urls ?d))"
    and s: "sorted (map name rs)"
    by blast
  have "get_urls ?d = ok_data (JArr (map row_json [?b, ?g]))"
    by (simp add: get_urls_def db_select_def order_by_name_def)
  then have "map row_json rs = map row_json [?b, ?g]"
    using g by (simp add: ok_data_def)
  moreover have "inj row_json"
    by (rule injI) (simp add: row_json_def json_of_deletedAt_def split: option.splits)
  ultimately have rs: "rs = [?b, ?g]" by (metis inj_map_eq_map)
  have ids: "map id_key rs = [''u1'', ''u2'']" using rs by simp
  have "\<exists>rs. get_urls ?d = ok_data (JArr (map row_json rs))
                 \<and> map id_key rs = [''u1'', ''u2'']"
  proof (intro exI conjI)
    show "get_urls ?d = ok_data (JArr (map row_json rs))" by (rule g)
    show "map id_key rs = [''u1'', ''u2'']" by (rule ids)
  qed
  then show ?thesis by (rule conjI [OF on])
qed

section \<open>Validation\<close>

text \<open>
  Claim C5, as stated, fails for a request in which \<open>name\<close> or \<open>mainUrl\<close> is missing: the
  body schema of the route refuses it before the handler runs, so the answer is Elysia's
  validation error and not \<open>{success: false, error: "Name and mainUrl are required"}\<close>.
\<close>

theorem missing_name_is_refused_by_body_schema:
  "route_post_url
     \<lparr>body_name = None, body_mainUrl = Some ''https://example.com'', body_subUrls = None\<rparr>
     ''u1'' 3 \<lparr>urls = [], online = True\<rparr>
   = (SchemaRejected, \<lparr>urls = [], online = True\<rparr>)
   \<and> fst (route_post_url
     \<lparr>body_name = None, body_mainUrl = Some ''https://example.com'', body_subUrls = None\<rparr>
     ''u1'' 3 \<lparr>urls = [], online = True\<rparr>)
     \<noteq> Handled (failure ''Name and mainUrl are required'')"
  by (simp add: route_post_url_def body_schema_def)

text \<open>
  Claim C5, amended. A create or update request in which \<open>name\<close> and \<open>mainUrl\<close> are both
  present and one of them is the empty string gets
  \<open>{success: false, error: "Name and mainUrl are required"}\<close>, and the database after the
  request is the database before it, in the drizzle servers and in the raw SQL server (the
  test comes before any statement). A request \<open>c\<close> in which \<open>name\<close> or \<open>mainUrl\<close> is
  missing is refused by the body schema of the route; it leaves the database as it was
  too.
\<close>

theorem empty_field_validation_error_leaves_store:
  assumes "body_name b = Some n" and "body_mainUrl b = Some m" and "n = [] \<or> m = []"
  shows "route_post_url b newId now d = (Handled (failure ''Name and mainUrl are required''), d)
       \<and> route_put_url i b now d = (Handled (failure ''Name and mainUrl are required''), d)
       \<and> sql_route_post_url b newId now d
           = (Handled (failure ''Name and mainUrl are required''), d)
       \<and> sql_route_put_url i b now d
           = (Handled (failure ''Name and mainUrl are required''), d)
       \<and> (body_name c = None \<or> body_mainUrl c = None \<longrightarrow>
             route_post_url c newId now d = (SchemaRejected, d)
           \<and> route_put_url i c now d = (SchemaRejected, d)
           \<and> sql_route_post_url c newId now d = (SchemaRejected, d)
           \<and> sql_route_put_url i c now d = (SchemaRejected, d))"
proof -
  have sch: "body_schema b" using assms(1,2) by (simp add: body_schema_def)
  have "body_name b = Some [] \<or> body_mainUrl b = Some []" using assms by auto
  then have "body_name b = None \<or> body_name b = Some [] \<or> body_mainUrl b = None
               \<or> body_mainUrl b = Some []" by blast
  then have rf: "required_fields b = None" by (rule required_fields_None)
  have a: "route_post_url b newId now d = (Handled (failure ''Name and mainUrl are required''), d)"
    using sch rf by (simp add: route_post_url_def post_url_invalid)
  have b: "route_put_url i b now d = (Handled (failure ''Name and mainUrl are required''), d)"
    using sch rf by (simp add: route_put_url_def put_url_invalid)
  have c: "sql_route_post_url b newId now d
           = (Handled (failure ''Name and mainUrl are required''), d)"
    using sch rf by (simp add: sql_route_post_url_def post_url_invalid)
  have e: "sql_route_put_url i b now d
           = (Handled (failure ''Name and mainUrl are required''), d)"
    using sch rf by (simp add: sql_route_put_url_def put_url_invalid)
  have f: "body_name c = None \<or> body_mainUrl c = None \<longrightarrow>
             route_post_url c newId now d = (SchemaRejected, d)
           \<and> route_put_url i c now d = (SchemaRejected, d)
           \<and> sql_route_post_url c newId now d = (SchemaRejected, d)
           \<and> sql_route_put_url i c now d = (SchemaRejected, d)"
    by (auto simp: route_post_url_def route_put_url_def sql_route_post_url_def
          sql_route_put_url_def body_schema_def)
  show ?thesis by (intro conjI) (rule a, rule b, rule c, rule e, rule f)
qed

text \<open>
  A create request with the empty name, on both servers, and an update request without
  \<open>mainUrl\<close>.
\<close>

theorem empty_field_validation_error_leaves_store_witness:
  "route_post_url
     \<lparr>body_name = Some [], body_mainUrl = Some ''https://example.com'', body_subUrls = None\<rparr>
     ''u1'' 3 \<lparr>urls = [], online = True\<rparr>
   = (Handled (failure ''Name and mainUrl are required''), \<lparr>urls = [], online = True\<rparr>)
   \<and> sql_route_post_url
     \<lparr>body_name = Some [], body_mainUrl = Some ''https://example.com'', body_subUrls = None\<rparr>
     ''u1'' 3 \<lparr>urls = [], online = True\<rparr>
   = (Handled (failure ''Name and mainUrl are required''), \<lparr>urls = [], online = True\<rparr>)
   \<and> route_put_url ''u1''
     \<lparr>body_name = Some ''Example'', body_mainUrl = None, body_subUrls = None\<rparr>
     3 \<lparr>urls = [], online = True\<rparr>
   = (SchemaRejected, \<lparr>urls = [], online = True\<rparr>)"
  using empty_field_validation_error_leaves_store
    [where b = "\<lparr>body_name = Some [], body_mainUrl = Some ''https://example.com'',
                 body_subUrls = None\<rparr>"
       and n = "[]" and m = "''https://example.com''"
       and c = "\<lparr>body_name = Some ''Example'', body_mainUrl = None, body_subUrls = None\<rparr>"
       and newId = "''u1''" and now = 3 and i = "''u1''"
       and d = "\<lparr>urls = [], online = True\<rparr>"]
  by simp

section \<open>Update of an absent or soft-deleted record\<close>

text \<open>
  Claim C6. When no row has the id, or the row that has it is soft-deleted, the update
  leaves the database as it was, whatever the body and whether or not the database is
  reachable; when the database is reachable and the body passes validation, the answer is
  \<open>{success: false, error: "URL not found"}\<close>. Moreover, in a database where the primary
  key holds, no update, of any id \<open>j\<close>, changes a soft-deleted row. Both servers.
\<close>

theorem update_not_found_changes_nothing:
  assumes "\<forall>r\<in>set (urls d). id_key r = i \<longrightarrow> isDeleted r"
  shows "snd (put_url i b now d) = d
       \<and> snd (sql_put_url i b now d) = d
       \<and> (online d \<and> body_name b = Some n \<and> n \<noteq> [] \<and> body_mainUrl b = Some m \<and> m \<noteq> []
            \<longrightarrow> put_url i b now d = (failure ''URL not found'', d)
              \<and> sql_put_url i b now d = (failure ''URL not found'', d))
       \<and> (pk_ok d \<longrightarrow>
            (\<forall>x\<in>set (urls d). isDeleted x \<longrightarrow>
               x \<in> set (urls (snd (put_url j c t d)))
             \<and> x \<in> set (urls (snd (sql_put_url j c t d)))))"
proof -
  have none: "filter (\<lambda>x. id_key x = i \<and> isDeleted x = False) (urls d) = []"
    using assms by (rule select_active_none)
  have s1: "snd (put_url i b now d) = d"
  proof -
    from put_url_store_cases [of i b now d] show ?thesis
    proof
      assume "snd (put_url i b now d) = d" then show ?thesis .
    next
      assume "\<exists>n m s. (\<exists>r\<in>set (urls d). id_key r = i \<and> isDeleted r = False) \<and>
        snd (put_url i b now d) =
          d\<lparr>urls := map (\<lambda>r. if id_key r = i
                               then r\<lparr>name := n, mainUrl := m, subUrls := s, updatedAt := now\<rparr>
                               else r) (urls d)\<rparr>"
      then have "\<exists>r\<in>set (urls d). id_key r = i \<and> isDeleted r = False" by blast
      with assms show ?thesis by blast
    qed
  qed
  have s2: "snd (sql_put_url i b now d) = d"
    using s1 by (simp add: sql_put_url_store)
  have nf: "online d \<and> body_name b = Some n \<and> n \<noteq> [] \<and> body_mainUrl b = Some m \<and> m \<noteq> []
            \<longrightarrow> put_url i b now d = (failure ''URL not found'', d)
              \<and> sql_put_url i b now d = (failure ''URL not found'', d)"
  proof
    assume h: "online d \<and> body_name b = Some n \<and> n \<noteq> [] \<and> body_mainUrl b = Some m \<and> m \<noteq> []"
    then have rf: "required_fields b = Some (n, m)" by (simp add: required_fields_Some)
    from h have on: "online d" by simp
    show "put_url i b now d = (failure ''URL not found'', d)
              \<and> sql_put_url i b now d = (failure ''URL not found'', d)"
      using put_url_online [OF on rf, of i now] sql_put_url_online [OF on rf, of i now] none
      by simp
  qed
  have keep: "pk_ok d \<longrightarrow>
            (\<forall>x\<in>set (urls d). isDeleted x \<longrightarrow>
               x \<in> set (urls (snd (put_url j c t d)))
             \<and> x \<in> set (urls (snd (sql_put_url j c t d))))"
    by (simp add: sql_put_url_store put_url_keeps_deleted)
  show ?thesis by (intro conjI) (rule s1, rule s2, rule nf, rule keep)
qed

text \<open>
  Updating the soft-deleted \<open>u1\<close> is refused, and updating its neighbour \<open>u2\<close> leaves
  \<open>u1\<close> as it was.
\<close>

theorem update_not_found_changes_nothing_witness:
  "put_url ''u1''
     \<lparr>body_name = Some ''New'', body_mainUrl = Some ''https://new.example'', body_subUrls = None\<rparr> 9
     \<lparr>urls = [\<lparr>id_key = ''u1'', name = ''Old'', mainUrl = ''https://old.example'',
               subUrls = Map.empty, isDeleted = True, deletedAt = Some 4,
               createdAt = 1, updatedAt = 1\<rparr>,
              \<lparr>id_key = ''u2'', name = ''Live'', mainUrl = ''https://live.example'',
               subUrls = Map.empty, isDeleted = False, deletedAt = None,
               createdAt = 2, updatedAt = 2\<rparr>], online = True\<rparr>
   = (failure ''URL not found'',
      \<lparr>urls = [\<lparr>id_key = ''u1'', name = ''Old'', mainUrl = ''https://old.example'',
               subUrls = Map.empty, isDeleted = True, deletedAt = Some 4,
               createdAt = 1, updatedAt = 1\<rparr>,
              \<lparr>id_key = ''u2'', name = ''Live'', mainUrl = ''https://live.example'',
               subUrls = Map.empty, isDeleted = False, deletedAt = None,
               createdAt = 2, updatedAt = 2\<rparr>], online = True\<rparr>)
   \<and> \<lparr>id_key = ''u1'', name = ''Old'', mainUrl = ''https://old.example'',
       subUrls = Map.empty, isDeleted = True, deletedAt = Some 4, createdAt = 1, updatedAt = 1\<rparr>
     \<in> set (urls (snd (put_url ''u2''
          \<lparr>body_name = Some ''New'', body_mainUrl = Some ''https://new.example'',
            body_subUrls = None\<rparr> 9
          \<lparr>urls = [\<lparr>id_key = ''u1'', name = ''Old'', mainUrl = ''https://old.example'',
               subUrls = Map.empty, isDeleted = True, deletedAt = Some 4,
               createdAt = 1, updatedAt = 1\<rparr>,
              \<lparr>id_key = ''u2'', name = ''Live'', mainUrl = ''https://live.example'',
               subUrls = Map.empty, isDeleted = False, deletedAt = None,
               createdAt = 2, updatedAt = 2\<rparr>], online = True\<rparr>)))"
  using update_not_found_changes_nothing
    [where d = "\<lparr>urls = [\<lparr>id_key = ''u1'', name = ''Old'', mainUrl = ''https://old.example'',
               subUrls = Map.empty, isDeleted = True, deletedAt = Some 4,
               createdAt = 1, updatedAt = 1\<rparr>,
              \<lparr>id_key = ''u2'', name = ''Live'', mainUrl = ''https://live.example'',
               subUrls = Map.empty, isDeleted = False, deletedAt = None,
               createdAt = 2, updatedAt = 2\<rparr>], online = True\<rparr>"
       and i = "''u1''"
       and b = "\<lparr>body_name = Some ''New'', body_mainUrl = Some ''https://new.example'',
                 body_subUrls = None\<rparr>"
       and now = 9 and n = "''New''" and m = "''https://new.example''"
       and j = "''u2''"
       and c = "\<lparr>body_name = Some ''New'', body_mainUrl = Some ''https://new.example'',
                 body_subUrls = None\<rparr>"
       and t = 9]
  by (simp add: pk_ok_def)

section \<open>Get by id\<close>

text \<open>
  Claim C7. While the database is reachable and the primary key holds, get-by-id answers
  \<open>{success: true, data: r}\<close> for the row \<open>r\<close> that has the id and is not soft-deleted,
  which is the only row with that id, and \<open>{success: false, error: "URL not found"}\<close>
  when no row has the id or the row that has it is soft-deleted. Both servers.
\<close>

theorem get_by_id_found_or_not_found:
  assumes "online d" and "pk_ok d"
  shows "(r \<in> set (urls d) \<and> id_key r = i \<and> isDeleted r = False \<longrightarrow>
            get_url i d = ok_data (row_json r)
          \<and> sql_get_url i d = ok_data (sql_row_json r)
          \<and> (\<forall>r'\<in>set (urls d). id_key r' = i \<longrightarrow> r' = r))
       \<and> ((\<forall>x\<in>set (urls d). id_key x = i \<longrightarrow> isDeleted x) \<longrightarrow>
            get_url i d = failure ''URL not found''
          \<and> sql_get_url i d = failure ''URL not found'')"
proof (intro conjI impI)
  assume h: "r \<in> set (urls d) \<and> id_key r = i \<and> isDeleted r = False"
  then have sel: "filter (\<lambda>x. id_key x = i \<and> isDeleted x = False) (urls d) = [r]"
    using select_active_unique [OF assms(2)] by blast
  show "get_url i d = ok_data (row_json r)"
    using assms(1) sel by (simp add: get_url_def db_select_def limit_def)
  show "sql_get_url i d = ok_data (sql_row_json r)"
    using assms(1) sel by (simp add: sql_get_url_def db_select_def limit_def)
  show "\<forall>r'\<in>set (urls d). id_key r' = i \<longrightarrow> r' = r"
    using h pk_unique [OF assms(2)] by blast
next
  assume "\<forall>x\<in>set (urls d). id_key x = i \<longrightarrow> isDeleted x"
  then have sel: "filter (\<lambda>x. id_key x = i \<and> isDeleted x = False) (urls d) = []"
    by (rule select_active_none)
  show "get_url i d = failure ''URL not found''"
    using assms(1) sel by (simp add: get_url_def db_select_def limit_def)
  show "sql_get_url i d = failure ''URL not found''"
    using assms(1) sel by (simp add: sql_get_url_def db_select_def limit_def)
qed

text \<open>
  One stored row: found under its id, not found under another.
\<close>

theorem get_by_id_found_or_not_found_witness:
  "get_url ''u1''
     \<lparr>urls = [\<lparr>id_key = ''u1'', name = ''Example'', mainUrl = ''https://example.com'',
               subUrls = [''a'' \<mapsto> ''http://x''], isDeleted = False, deletedAt = None,
               createdAt = 1, updatedAt = 1\<rparr>], online = True\<rparr>
   = ok_data (row_json \<lparr>id_key = ''u1'', name = ''Example'', mainUrl = ''https://example.com'',
               subUrls = [''a'' \<mapsto> ''http://x''], isDeleted = False, deletedAt = None,
               createdAt = 1, updatedAt = 1\<rparr>)
   \<and> get_url ''u2''
     \<lparr>urls = [\<lparr>id_key = ''u1'', name = ''Example'', mainUrl = ''https://example.com'',
               subUrls = [''a'' \<mapsto> ''http://x''], isDeleted = False, deletedAt = None,
               createdAt = 1, updatedAt = 1\<rparr>], online = True\<rparr>
   = failure ''URL not found''"
  using get_by_id_found_or_not_found
    [of "\<lparr>urls = [\<lparr>id_key = ''u1'', name = ''Example'', mainUrl = ''https://example.com'',
               subUrls = [''a'' \<mapsto> ''http://x''], isDeleted = False, deletedAt = None,
               createdAt = 1, updatedAt = 1\<rparr>], online = True\<rparr>"
        "\<lparr>id_key = ''u1'', name = ''Example'', mainUrl = ''https://example.com'',
               subUrls = [''a'' \<mapsto> ''http://x''], isDeleted = False, deletedAt = None,
               createdAt = 1, updatedAt = 1\<rparr>" "''u1''"]
    get_by_id_found_or_not_found
    [of "\<lparr>urls = [\<lparr>id_key = ''u1'', name = ''Example'', mainUrl = ''https://example.com'',
               subUrls = [''a'' \<mapsto> ''http://x''], isDeleted = False, deletedAt = None,
               createdAt = 1, updatedAt = 1\<rparr>], online = True\<rparr>"
        "\<lparr>id_key = ''u1'', name = ''Example'', mainUrl = ''https://example.com'',
               subUrls = [''a'' \<mapsto> ''http://x''], isDeleted = False, deletedAt = None,
               createdAt = 1, updatedAt = 1\<rparr>" "''u2''"]
  by (simp add: pk_ok_def)

section \<open>Create, then get\<close>

text \<open>
  Claim C8. For a reachable database, an id that \<open>crypto.randomUUID()\<close> has not given
  before, and a body with non-empty \<open>name\<close> and \<open>mainUrl\<close>: the create answers with the new
  id, and get-by-id with that id then returns the created row \<open>r\<close>, whose \<open>name\<close> and
  \<open>mainUrl\<close> are those of the body, whose \<open>subUrls\<close> is the mapping of the body, or the
  empty mapping when the body has none, which is not soft-deleted, and whose \<open>createdAt\<close>
  equals its \<open>updatedAt\<close>. This is the create and the get-by-id of the drizzle servers.
\<close>

theorem create_then_get_round_trip:
  assumes "online d" and "\<forall>r\<in>set (urls d). id_key r \<noteq> newId"
    and "body_name b = Some n" and "n \<noteq> []" and "body_mainUrl b = Some m" and "m \<noteq> []"
  shows "\<exists>r. fst (post_url b newId now d) =
               ok_data (JObj [(''id'', JStr newId), (''name'', JStr n), (''mainUrl'', JStr m),
                              (''subUrls'', JMap (subUrls r)), (''isDeleted'', JBool False)])
           \<and> get_url newId (snd (post_url b newId now d)) = ok_data (row_json r)
           \<and> id_key r = newId \<and> name r = n \<and> mainUrl r = m
           \<and> subUrls r = (case body_subUrls b of None \<Rightarrow> Map.empty | Some s \<Rightarrow> s)
           \<and> isDeleted r = False \<and> deletedAt r = None
           \<and> createdAt r = updatedAt r"
proof -
  let ?s = "subUrls_or_default (body_subUrls b)"
  let ?r = "newUrl_row newId n m ?s now"
  let ?d' = "d\<lparr>urls := urls d @ [?r]\<rparr>"
  have rf: "required_fields b = Some (n, m)"
    using assms(3-6) by (rule required_fields_Some)
  have fresh: "newId \<notin> id_key ` set (urls d)" using assms(2) by auto
  have p: "post_url b newId now d =
     (ok_data (JObj [(''id'', JStr newId), (''name'', JStr n), (''mainUrl'', JStr m),
                     (''subUrls'', JMap ?s), (''isDeleted'', JBool False)]), ?d')"
    using post_url_online [OF assms(1) rf, of newId now] fresh by simp
  have old: "filter (\<lambda>x. id_key x = newId \<and> isDeleted x = False) (urls d) = []"
    using assms(2) by (auto simp: filter_empty_conv)
  have sel: "filter (\<lambda>x. id_key x = newId \<and> isDeleted x = False) (urls ?d') = [?r]"
    using old by (simp add: newUrl_row_def)
  have on: "online ?d'" using assms(1) by simp
  have g: "get_url newId ?d' = ok_data (row_json ?r)"
    unfolding get_url_def db_select_def limit_def using on sel by simp
  have f: "id_key ?r = newId \<and> name ?r = n \<and> mainUrl ?r = m
           \<and> subUrls ?r = (case body_subUrls b of None \<Rightarrow> Map.empty | Some s \<Rightarrow> s)
           \<and> isDeleted ?r = False \<and> deletedAt ?r = None
           \<and> createdAt ?r = updatedAt ?r"
    by (simp add: newUrl_row_def subUrls_or_default_def)
  have s: "subUrls ?r = ?s" by (simp add: newUrl_row_def)
  show ?thesis
  proof (intro exI [of _ ?r] conjI)
    show "fst (post_url b newId now d) =
               ok_data (JObj [(''id'', JStr newId), (''name'', JStr n), (''mainUrl'', JStr m),
                              (''subUrls'', JMap (subUrls ?r)), (''isDeleted'', JBool False)])"
      by (simp add: p s)
    show "get_url newId (snd (post_url b newId now d)) = ok_data (row_json ?r)"
      by (simp add: p g)
  qed (simp_all add: f)
qed

text \<open>
  The mapping \<open>{"a": "http://x", "b": "http://y"}\<close> comes back as it was sent.
\<close>

theorem create_then_get_round_trip_witness:
  "\<exists>r. get_url ''u1''
          (snd (post_url \<lparr>body_name = Some ''Example'', body_mainUrl = Some ''https://example.com'',
                           body_subUrls = Some [''a'' \<mapsto> ''http://x'', ''b'' \<mapsto> ''http://y'']\<rparr>
                  ''u1'' 3 \<lparr>urls = [], online = True\<rparr>))
        = ok_data (row_json r)
      \<and> subUrls r = [''a'' \<mapsto> ''http://x'', ''b'' \<mapsto> ''http://y'']
      \<and> createdAt r = updatedAt r"
  using create_then_get_round_trip
    [of "\<lparr>urls = [], online = True\<rparr>" "''u1''"
        "\<lparr>body_name = Some ''Example'', body_mainUrl = Some ''https://example.com'',
          body_subUrls = Some [''a'' \<mapsto> ''http://x'', ''b'' \<mapsto> ''http://y'']\<rparr>"
        "''Example''" "''https://example.com''" 3]
  by simp blast

section \<open>The invariant of soft deletion\<close>

text \<open>
  Claim C9. In every database that a sequence of requests (and starts of the process, and
  changes of connectivity) reaches from the empty one, each row has \<open>deletedAt\<close> non-null
  if and only if \<open>isDeleted\<close> is true, in both servers. A create adds only rows with
  \<open>isDeleted = false\<close> and \<open>deletedAt\<close> null, a delete leaves a row as it was or sets
  \<open>isDeleted = true\<close> together with \<open>deletedAt\<close>, and an update changes neither column.
\<close>

theorem deletedAt_iff_isDeleted_in_reachable_states:
  "(\<forall>r\<in>set (urls (run reqs empty_db)). (deletedAt r \<noteq> None) = isDeleted r)
   \<and> (\<forall>r\<in>set (urls (sql_run reqs empty_db)). (deletedAt r \<noteq> None) = isDeleted r)
   \<and> (\<forall>r\<in>set (urls (snd (post_url b newId now d))).
         r \<in> set (urls d) \<or> (isDeleted r = False \<and> deletedAt r = None))
   \<and> (\<forall>r\<in>set (urls (snd (delete_url i now d))).
         r \<in> set (urls d) \<or> (isDeleted r = True \<and> deletedAt r = Some now))
   \<and> map isDeleted (urls (snd (put_url i b now d))) = map isDeleted (urls d)
   \<and> map deletedAt (urls (snd (put_url i b now d))) = map deletedAt (urls d)"
proof -
  have a: "db_consistent (run reqs empty_db)"
    unfolding run_def using db_consistent_empty by (rule db_consistent_fold_step)
  have b: "db_consistent (sql_run reqs empty_db)"
    unfolding sql_run_def using db_consistent_empty by (rule db_consistent_fold_sql_step)
  have a': "\<forall>r\<in>set (urls (run reqs empty_db)). (deletedAt r \<noteq> None) = isDeleted r"
    using a by (simp add: db_consistent_def list_all_iff deleted_consistent_def)
  have b': "\<forall>r\<in>set (urls (sql_run reqs empty_db)). (deletedAt r \<noteq> None) = isDeleted r"
    using b by (simp add: db_consistent_def list_all_iff deleted_consistent_def)
  show ?thesis
    using a' b' post_url_new_row [of b newId now d] delete_url_sets_both [of i now d]
      put_url_flags [of i b now d]
    by (intro conjI) simp_all
qed

text \<open>
  A create followed by the delete of the created record.
\<close>

theorem deletedAt_iff_isDeleted_in_reachable_states_witness:
  "urls (run [Create \<lparr>body_name = Some ''Example'', body_mainUrl = Some ''https://example.com'',
                      body_subUrls = None\<rparr> ''u1'' 3,
              Delete ''u1'' 5] empty_db)
   = [\<lparr>id_key = ''u1'', name = ''Example'', mainUrl = ''https://example.com'',
       subUrls = Map.empty, isDeleted = True, deletedAt = Some 5, createdAt = 3, updatedAt = 3\<rparr>]
   \<and> list_all (\<lambda>r. (deletedAt r \<noteq> None) = isDeleted r)
        (urls (run [Create \<lparr>body_name = Some ''Example'',
                            body_mainUrl = Some ''https://example.com'',
                            body_subUrls = None\<rparr> ''u1'' 3,
                    Delete ''u1'' 5] empty_db))"
proof -
  let ?reqs = "[Create \<lparr>body_name = Some ''Example'', body_mainUrl = Some ''https://example.com'',
                      body_subUrls = None\<rparr> ''u1'' 3,
              Delete ''u1'' 5]"
  have a: "urls (run ?reqs empty_db)
   = [\<lparr>id_key = ''u1'', name = ''Example'', mainUrl = ''https://example.com'',
       subUrls = Map.empty, isDeleted = True, deletedAt = Some 5, createdAt = 3, updatedAt = 3\<rparr>]"
    by (simp add: run_def empty_db_def post_url_def delete_url_def required_fields_def
          subUrls_or_default_def db_insert_def db_update_def newUrl_row_def Let_def)
  have "\<forall>r\<in>set (urls (run ?reqs empty_db)). (deletedAt r \<noteq> None) = isDeleted r"
    using deletedAt_iff_isDeleted_in_reachable_states [of ?reqs] by blast
  then have b: "list_all (\<lambda>r. (deletedAt r \<noteq> None) = isDeleted r) (urls (run ?reqs empty_db))"
    by (simp only: list_all_iff)
  show ?thesis using a b by (rule conjI)
qed

section \<open>Seeding at the first startup\<close>

text \<open>
  Claim C10. In the vercel-postgres drizzle server, \<open>initializeDatabase\<close> called with the
  flag unset on a reachable database whose table is empty, the two random ids being
  different, inserts exactly two rows, named "BBC News" and "Google", neither of them
  soft-deleted and each with three entries in \<open>subUrls\<close>, and sets the flag; the list
  operation then returns these two rows. Once the flag is set, \<open>initializeDatabase\<close>
  returns at once and changes nothing.
\<close>

theorem first_startup_seeds_two_records:
  assumes "online d" and "urls d = []" and "uuid 0 \<noteq> uuid (Suc 0)"
  shows "(\<exists>r1 r2.
            initializeDatabase uuid clock \<lparr>store = d, isInitialized = False\<rparr>
              = (None, \<lparr>store = d\<lparr>urls := [r1, r2]\<rparr>, isInitialized = True\<rparr>)
          \<and> name r1 = ''BBC News'' \<and> name r2 = ''Google''
          \<and> isDeleted r1 = False \<and> isDeleted r2 = False
          \<and> card (dom (subUrls r1)) = 3 \<and> card (dom (subUrls r2)) = 3
          \<and> get_urls (d\<lparr>urls := [r1, r2]\<rparr>) = ok_data (JArr [row_json r1, row_json r2]))
       \<and> (isInitialized st \<longrightarrow> initializeDatabase uuid' clock' st = (None, st))"
proof -
  let ?r1 = "newUrl_row (uuid 0) ''BBC News'' ''https://www.bbc.com''
           [''us'' \<mapsto> ''https://www.bbc.com/news/world/us_and_canada'',
            ''uk'' \<mapsto> ''https://www.bbc.co.uk'',
            ''in'' \<mapsto> ''https://www.bbc.com/news/world/asia/india''] (clock 0)"
  let ?r2 = "newUrl_row (uuid (Suc 0)) ''Google'' ''https://www.google.com''
           [''in'' \<mapsto> ''https://www.google.co.in'',
            ''uk'' \<mapsto> ''https://www.google.co.uk'',
            ''jp'' \<mapsto> ''https://www.google.co.jp''] (clock (Suc 0))"
  have init: "initializeDatabase uuid clock \<lparr>store = d, isInitialized = False\<rparr>
              = (None, \<lparr>store = d\<lparr>urls := [?r1, ?r2]\<rparr>, isInitialized = True\<rparr>)"
    using assms(1,2) seed_loop_initialData [OF assms, of clock]
    by (simp add: initializeDatabase_def migrate_def db_select_def limit_def)
  have names: "name ?r1 = ''BBC News'' \<and> name ?r2 = ''Google''"
    by (simp add: newUrl_row_def)
  have flags: "isDeleted ?r1 = False \<and> isDeleted ?r2 = False"
    by (simp add: newUrl_row_def)
  have c1: "card (dom (subUrls ?r1)) = 3" by (simp add: newUrl_row_def)
  have c2: "card (dom (subUrls ?r2)) = 3" by (simp add: newUrl_row_def)
  have srt: "order_by_name [?r1, ?r2] = [?r1, ?r2]"
    by (simp add: order_by_name_def newUrl_row_def)
  have lst: "get_urls (d\<lparr>urls := [?r1, ?r2]\<rparr>) = ok_data (JArr [row_json ?r1, row_json ?r2])"
    using assms(1) flags srt by (simp add: get_urls_def db_select_def)
  have noop: "isInitialized st \<longrightarrow> initializeDatabase uuid' clock' st = (None, st)"
    by (simp add: initializeDatabase_def)
  have "\<exists>r1 r2.
            initializeDatabase uuid clock \<lparr>store = d, isInitialized = False\<rparr>
              = (None, \<lparr>store = d\<lparr>urls := [r1, r2]\<rparr>, isInitialized = True\<rparr>)
          \<and> name r1 = ''BBC News'' \<and> name r2 = ''Google''
          \<and> isDeleted r1 = False \<and> isDeleted r2 = False
          \<and> card (dom (subUrls r1)) = 3 \<and> card (dom (subUrls r2)) = 3
          \<and> get_urls (d\<lparr>urls := [r1, r2]\<rparr>) = ok_data (JArr [row_json r1, row_json r2])"
    using init names flags c1 c2 lst by (intro exI [of _ ?r1] exI [of _ ?r2]) simp
  then show ?thesis using noop by (rule conjI)
qed

text \<open>
  The first startup on the empty database.
\<close>

theorem first_startup_seeds_two_records_witness:
  "fst (initializeDatabase (\<lambda>k. if k = 0 then ''u1'' else ''u2'') (\<lambda>k. 7)
          \<lparr>store = empty_db, isInitialized = False\<rparr>) = None
   \<and> map name (urls (store (snd (initializeDatabase (\<lambda>k. if k = 0 then ''u1'' else ''u2'') (\<lambda>k. 7)
          \<lparr>store = empty_db, isInitialized = False\<rparr>)))) = [''BBC News'', ''Google'']"
proof -
  let ?uuid = "\<lambda>k::nat. if k = 0 then ''u1'' else ''u2''"
  let ?clock = "\<lambda>k::nat. 7::nat"
  have h1: "online empty_db" by (simp add: empty_db_def)
  have h2: "urls empty_db = []" by (simp add: empty_db_def)
  have h3: "?uuid 0 \<noteq> ?uuid (Suc 0)" by simp
  note t = first_startup_seeds_two_records [of empty_db ?uuid ?clock, OF h1 h2 h3, THEN conjunct1]
  from t obtain r1 r2 where
    i: "initializeDatabase ?uuid ?clock \<lparr>store = empty_db, isInitialized = False\<rparr>
       = (None, \<lparr>store = empty_db\<lparr>urls := [r1, r2]\<rparr>, isInitialized = True\<rparr>)"
    and n: "name r1 = ''BBC News''" "name r2 = ''Google''"
    by (elim exE conjE)
  show ?thesis by (simp add: i n)
qed

end
